theory Spec2Isabelle
  imports Main
begin

section \<open>Data model of package exec\<close>

text \<open>
  The package wraps \<^verbatim>\<open>os/exec\<close>: a \<^verbatim>\<open>Cmd\<close> embeds an \<^verbatim>\<open>*exec.Cmd\<close>, points to
  the next stage of a pipeline and carries a context, a private stderr buffer, a closer,
  a tracer and a logger. The operating system, the tracer and the logger are external:
  every call the code makes on them is appended to the event list of a \<open>world\<close>, and
  what the operating system answers is read from an \<open>env\<close>.
\<close>

subsection \<open>Errors\<close>

text \<open>
  \<^verbatim>\<open>errors.New(s)\<close> is \<open>errorString s\<close>; \<^verbatim>\<open>exec.ErrNotFound\<close> is the sentinel;
  \<^verbatim>\<open>&exec.Error{Name, Err}\<close> wraps an error with the file name that was looked up;
  \<^verbatim>\<open>*exec.ExitError\<close> carries the exit code; \<open>osError\<close> is any other error of the
  operating system (fork/exec, I/O copying).
\<close>

datatype error =
    errorString string
  | ErrNotFound
  | execError string error
  | ExitError int
  | osError string

fun digits :: "nat \<Rightarrow> string" where
  "digits n = (if n < 10 then [''0123456789'' ! n]
               else digits (n div 10) @ [''0123456789'' ! (n mod 10)])"

declare digits.simps [simp del]

text \<open>The verb \<^verbatim>\<open>%d\<close> of \<^verbatim>\<open>fmt.Sprintf\<close> on an int.\<close>

definition itoa :: "int \<Rightarrow> string" where
  "itoa i = (if i < 0 then CHR ''-'' # digits (nat (- i)) else digits (nat i))"

text \<open>The method \<^verbatim>\<open>Error()\<close> of an error value.\<close>

fun Error :: "error \<Rightarrow> string" where
  "Error (errorString s) = s"
| "Error ErrNotFound = ''executable file not found in $PATH''"
| "Error (execError name e) = ''exec: '' @ name @ '': '' @ Error e"
| "Error (ExitError code) = ''exit status '' @ itoa code"
| "Error (osError s) = s"

text \<open>\<^verbatim>\<open>errors.Is(err, target)\<close>: \<^verbatim>\<open>exec.Error\<close> unwraps to the error it carries.\<close>

fun Is :: "error \<Rightarrow> error \<Rightarrow> bool" where
  "Is (execError name e) target = (execError name e = target \<or> Is e target)"
| "Is e target = (e = target)"

subsection \<open>Stdio, contexts, spans\<close>

text \<open>
  Readers, writers and closers are identified by a number: a caller's value by the number
  the caller chose, a buffer or an in-memory pipe by the number it was allocated under.
\<close>

datatype reader = UserReader nat | PipeReader nat

datatype writer = UserWriter nat | Buffer nat | PipeWriter nat | MultiWriter "writer list"

text \<open>\<^verbatim>\<open>io.NopCloser(nil)\<close> or the write end of a pipe.\<close>

datatype closer = NopCloser | PipeCloser nat

datatype tracer = NoopTracer | UserTracer nat

datatype logger = NoOpLogger | UserLogger nat

text \<open>A context is the background context or a context that carries a span.\<close>

datatype Context = Background | ContextWithSpan nat Context

datatype span = NoopSpan | Span nat

text \<open>\<^verbatim>\<open>trace.SpanFromContext\<close>: the span of the context, a no-op span when it has none.\<close>

fun SpanFromContext :: "Context \<Rightarrow> span" where
  "SpanFromContext Background = NoopSpan"
| "SpanFromContext (ContextWithSpan s parent) = Span s"

datatype code = Ok | Err_code

subsection \<open>The underlying command\<close>

text \<open>
  The fields of \<^verbatim>\<open>exec.Cmd\<close> the package reads or writes. \<open>Process\<close> is the process
  handle (\<open>None\<close> is nil), \<open>ProcessState\<close> the exit information, here the exit code.
\<close>

record exec_Cmd =
  Path :: string
  Args :: "string list"
  Env :: "string list"
  Stdin :: "reader option"
  Stdout :: "writer option"
  Stderr :: "writer option"
  Process :: "nat option"
  ProcessState :: "int option"
  Err :: "error option"

text \<open>\<^verbatim>\<open>(*os.ProcessState).ExitCode\<close>: \<open>-1\<close> on a nil receiver.\<close>

definition ExitCode :: "int option \<Rightarrow> int" where
  "ExitCode ps = (case ps of None \<Rightarrow> - 1 | Some n \<Rightarrow> n)"

text \<open>\<^verbatim>\<open>strings.Join\<close>.\<close>

fun Join :: "string list \<Rightarrow> string \<Rightarrow> string" where
  "Join [] sep = []"
| "Join [a] sep = a"
| "Join (a # b # bs) sep = a @ sep @ Join (b # bs) sep"

text \<open>
  \<^verbatim>\<open>(*exec.Cmd).String\<close> of the standard library: the requested name and arguments when
  the path was not resolved, the resolved path and the arguments otherwise.
\<close>

definition exec_String :: "exec_Cmd \<Rightarrow> string" where
  "exec_String b =
     (if Err b \<noteq> None then Join (Args b) '' ''
      else Path b @ concat (map (\<lambda>a. '' '' @ a) (tl (Args b))))"

subsection \<open>Descriptors\<close>

text \<open>
  \<^verbatim>\<open>type Cmd struct { *exec.Cmd; Next *Cmd; ctx; stdErr; closer; tracer; logger }\<close>.
  A chain owns its stages: no stage is shared between two chains, so the pointer
  \<open>Next\<close> is a value and a chain is finite and acyclic by its type.
\<close>

datatype Cmd = MkCmd
  (Cmd: exec_Cmd)
  (Next: "Cmd option")
  (ctx: Context)
  (stdErr: writer)
  (closer: closer)
  (tracer: tracer)
  (logger: logger)

definition set_Cmd :: "exec_Cmd \<Rightarrow> Cmd \<Rightarrow> Cmd" where
  "set_Cmd b c = MkCmd b (Next c) (ctx c) (stdErr c) (closer c) (tracer c) (logger c)"

definition set_Next :: "Cmd option \<Rightarrow> Cmd \<Rightarrow> Cmd" where
  "set_Next n c = MkCmd (Cmd c) n (ctx c) (stdErr c) (closer c) (tracer c) (logger c)"

definition set_ctx :: "Context \<Rightarrow> Cmd \<Rightarrow> Cmd" where
  "set_ctx x c = MkCmd (Cmd c) (Next c) x (stdErr c) (closer c) (tracer c) (logger c)"

definition set_closer :: "closer \<Rightarrow> Cmd \<Rightarrow> Cmd" where
  "set_closer x c = MkCmd (Cmd c) (Next c) (ctx c) (stdErr c) x (tracer c) (logger c)"

definition set_tracer :: "tracer \<Rightarrow> Cmd \<Rightarrow> Cmd" where
  "set_tracer x c = MkCmd (Cmd c) (Next c) (ctx c) (stdErr c) (closer c) x (logger c)"

definition set_logger :: "logger \<Rightarrow> Cmd \<Rightarrow> Cmd" where
  "set_logger x c = MkCmd (Cmd c) (Next c) (ctx c) (stdErr c) (closer c) (tracer c) x"

text \<open>The stages of a chain, head first.\<close>

fun chain :: "Cmd \<Rightarrow> Cmd list" where
  "chain (MkCmd b None x se cl tr lg) = [MkCmd b None x se cl tr lg]"
| "chain (MkCmd b (Some n) x se cl tr lg) = MkCmd b (Some n) x se cl tr lg # chain n"

subsection \<open>The world outside\<close>

datatype logval = LErr error | LInt int | LStr string

text \<open>
  One event for each call on a collaborator: the tracer (\<open>SpanStart\<close> with the tracer,
  the new span, the parent context, the span name and the attribute \<^verbatim>\<open>exec.args\<close>), a
  span, the logger, the process primitives of \<^verbatim>\<open>os/exec\<close> (with the underlying command as
  it is at the call) and a closer.
\<close>

datatype event =
    SpanStart tracer nat Context string "string list"
  | SetAttributes span int
  | RecordError span error
  | SetStatus span code string
  | SpanEnd span
  | LogDebug logger Context string "(string \<times> logval) list"
  | ProcStart exec_Cmd
  | ProcWait exec_Cmd
  | Close closer

record world =
  events :: "event list"
  fresh :: nat

definition emit :: "event list \<Rightarrow> world \<Rightarrow> world" where
  "emit evs w = w\<lparr>events := events w @ evs\<rparr>"

text \<open>The result of waiting on a process: the error, the exit code, what it wrote on stderr.\<close>

record wait_result =
  werr :: "error option"
  exit_code :: int
  stderr_out :: string

text \<open>
  What the operating system and the standard library answer: the environment, the path
  functions, the path search, whether spawning a command fails, what waiting on it
  gives, and the hexadecimal trace and span identifiers of a span.
\<close>

record env =
  Environ :: "string list"
  Clean :: "string \<Rightarrow> string"
  Base :: "string \<Rightarrow> string"
  LookPath :: "string \<Rightarrow> string \<times> error option"
  spawn :: "exec_Cmd \<Rightarrow> error option"
  await :: "exec_Cmd \<Rightarrow> wait_result"
  TraceID :: "nat \<Rightarrow> string"
  SpanID :: "nat \<Rightarrow> string"

section \<open>Start, Wait, Run\<close>

text \<open>
  \<^verbatim>\<open>tracer.Start(ctx, name, trace.WithAttributes(attribute.StringSlice("exec.args", args)))\<close>:
  a new span, and the context that carries it.
\<close>

definition tracer_Start ::
  "tracer \<Rightarrow> Context \<Rightarrow> string \<Rightarrow> string list \<Rightarrow> world \<Rightarrow> Context \<times> nat \<times> world" where
  "tracer_Start tr parent name args w =
     (let s = fresh w
      in (ContextWithSpan s parent, s,
          (emit [SpanStart tr s parent name args] w)\<lparr>fresh := Suc s\<rparr>))"

text \<open>
  \<^verbatim>\<open>(*exec.Cmd).Start\<close> of the standard library: the deferred error of the command when
  it has one, the error of the spawn when it fails (the process handle stays nil), and
  a process handle otherwise.
\<close>

definition exec_Start :: "env \<Rightarrow> exec_Cmd \<Rightarrow> world \<Rightarrow> error option \<times> exec_Cmd \<times> world" where
  "exec_Start e b w =
     (if Process b \<noteq> None then (Some (errorString ''exec: already started''), b, w)
      else if Err b \<noteq> None then (Err b, b, w)
      else case spawn e b of
             Some err \<Rightarrow> (Some err, b, emit [ProcStart b] w)
           | None \<Rightarrow>
               (None, b\<lparr>Process := Some (fresh w)\<rparr>,
                (emit [ProcStart b] w)\<lparr>fresh := Suc (fresh w)\<rparr>))"

text \<open>\<^verbatim>\<open>(*exec.Cmd).Wait\<close> of the standard library: it sets the exit information.\<close>

definition exec_Wait :: "env \<Rightarrow> exec_Cmd \<Rightarrow> world \<Rightarrow> error option \<times> exec_Cmd \<times> world" where
  "exec_Wait e b w =
     (if Process b = None then (Some (errorString ''exec: not started''), b, w)
      else if ProcessState b \<noteq> None then (Some (errorString ''exec: Wait was already called''), b, w)
      else (werr (await e b), b\<lparr>ProcessState := Some (exit_code (await e b))\<rparr>,
            emit [ProcWait b] w))"

text \<open>\<^verbatim>\<open>func (c *Cmd) Start() error\<close>.\<close>

definition Start :: "env \<Rightarrow> Cmd \<Rightarrow> world \<Rightarrow> error option \<times> Cmd \<times> world" where
  "Start e c w =
     (if Process (Cmd c) \<noteq> None then (Some (errorString ''exec: already started''), c, w)
      else
        let (ctx', s, w1) = tracer_Start (tracer c) (ctx c) ''exec:run'' (Args (Cmd c)) w;
            b1 = (Cmd c)\<lparr>Stderr :=
                   (case Stderr (Cmd c) of
                      None \<Rightarrow> Some (stdErr c)
                    | Some old \<Rightarrow> Some (MultiWriter [stdErr c, old]))\<rparr>;
            b2 = b1\<lparr>Env := Env b1 @ [''TRACE_ID='' @ TraceID e s, ''SPAN_ID='' @ SpanID e s]\<rparr>;
            nx = map_option (set_ctx ctx') (Next c);
            (err, b3, w2) = exec_Start e b2 w1;
            c' = MkCmd b3 nx ctx' (stdErr c) (closer c) (tracer c) (logger c)
        in case err of
             Some er \<Rightarrow>
               (Some er, c',
                emit [RecordError (Span s) er, SetStatus (Span s) Err_code (Error er),
                      SpanEnd (Span s)] w2)
           | None \<Rightarrow> (None, c', emit [SetStatus (Span s) Ok []] w2))"

text \<open>\<^verbatim>\<open>strings.Trim(s, cutset)\<close>.\<close>

definition Trim :: "string \<Rightarrow> string \<Rightarrow> string" where
  "Trim s cutset =
     rev (dropWhile (\<lambda>ch. ch \<in> set cutset) (rev (dropWhile (\<lambda>ch. ch \<in> set cutset) s)))"

text \<open>Whether what is written to a writer reaches a given buffer.\<close>

fun feeds :: "writer \<Rightarrow> writer \<Rightarrow> bool" where
  "feeds (MultiWriter ws) buf = (MultiWriter ws = buf \<or> (\<exists>x \<in> set ws. feeds x buf))"
| "feeds x buf = (x = buf)"

text \<open>\<^verbatim>\<open>c.stdErr.String()\<close> after the process has exited.\<close>

definition captured :: "env \<Rightarrow> Cmd \<Rightarrow> string" where
  "captured e c =
     (case Stderr (Cmd c) of
        None \<Rightarrow> []
      | Some x \<Rightarrow> if feeds x (stdErr c) then stderr_out (await e (Cmd c)) else [])"

text \<open>
  The first deferred function of \<^verbatim>\<open>Wait\<close>: the exit code as an attribute, the status,
  and the end of the span. It reads the named result \<^verbatim>\<open>err\<close> as it is when it runs.
\<close>

definition finish :: "span \<Rightarrow> exec_Cmd \<Rightarrow> error option \<Rightarrow> world \<Rightarrow> world" where
  "finish sp b err w =
     emit ([SetAttributes sp (ExitCode (ProcessState b))] @
           (case err of
              None \<Rightarrow> [SetStatus sp Ok []]
            | Some er \<Rightarrow> [RecordError sp er, SetStatus sp Err_code (Error er)]) @
           [SpanEnd sp]) w"

text \<open>
  The last statements of \<^verbatim>\<open>Wait\<close>: \<^verbatim>\<open>c.Cmd.Wait()\<close>, and the log event when it fails.
\<close>

definition wait_own :: "env \<Rightarrow> Cmd \<Rightarrow> world \<Rightarrow> error option \<times> Cmd \<times> world" where
  "wait_own e c w =
     (let (err, b, w1) = exec_Wait e (Cmd c) w
      in case err of
           None \<Rightarrow> (None, set_Cmd b c, w1)
         | Some er \<Rightarrow>
             (Some er, set_Cmd b c,
              emit [LogDebug (logger c) (ctx c)
                      (''failed to execute `'' @ Base e (Path b) @ ''`'')
                      [(''exec.error'', LErr er),
                       (''exec.exit_code'', LInt (ExitCode (ProcessState b))),
                       (''exec.command'', LStr (exec_String b)),
                       (''exec.output'', LStr (Trim (captured e c) [CHR 0x0D, CHR 0x0A, CHR '' '']))]]
                w1))"

text \<open>
  The second deferred function of \<^verbatim>\<open>Wait\<close>, on the branch where this stage failed:
  the span of the next stage is set to error and ended.
\<close>

definition fail_next :: "Cmd \<Rightarrow> Cmd \<Rightarrow> world \<Rightarrow> world" where
  "fail_next c n w =
     emit [SetStatus (SpanFromContext (ctx n)) Err_code
             (''`'' @ exec_String (Cmd c) @ ''` exited with code '' @
              itoa (ExitCode (ProcessState (Cmd c)))),
           SpanEnd (SpanFromContext (ctx n))] w"

lemma chain_set_ctx: "length (chain (set_ctx x c)) = length (chain c)"
  by (cases c; cases "Next c") (simp_all add: set_ctx_def)

lemma chain_length_Next: "Next c = Some n \<Longrightarrow> length (chain n) < length (chain c)"
  by (cases c) simp

lemma chain_length_MkCmd:
  "length (chain (MkCmd b nx x se cl tr lg)) =
     (case nx of None \<Rightarrow> 1 | Some n \<Rightarrow> Suc (length (chain n)))"
  by (cases nx) simp_all

lemma Start_chain_length:
  "Start e c w = (err, c', w') \<Longrightarrow> length (chain c') = length (chain c)"
  by (cases c; cases "Next c")
     (auto simp: Start_def Let_def chain_length_MkCmd chain_set_ctx
           split: if_splits prod.splits option.splits)

text \<open>
  \<^verbatim>\<open>func (c *Cmd) Wait() (err error)\<close>. The deferred functions run in the reverse
  order of their registration: the closer, then the one on the next stage (registered only
  once the next stage has started), then \<open>finish\<close>.
\<close>

function Wait :: "env \<Rightarrow> Cmd \<Rightarrow> world \<Rightarrow> error option \<times> Cmd \<times> world" where
  "Wait e c w =
     (if Process (Cmd c) = None then (Some (errorString ''exec: not started''), c, w)
      else if ProcessState (Cmd c) \<noteq> None
        then (Some (errorString ''exec: Wait was already called''), c, w)
      else
        let sp = SpanFromContext (ctx c)
        in case Next c of
             None \<Rightarrow>
               (let (err, c1, w1) = wait_own e c w;
                    w2 = emit [Close (closer c1)] w1
                in (err, c1, finish sp (Cmd c1) err w2))
           | Some n \<Rightarrow>
               (case Start e n w of
                  (Some er, n1, w1) \<Rightarrow>
                    (let c1 = set_Next (Some n1) c
                     in (Some er, c1, finish sp (Cmd c1) (Some er) (emit [SpanEnd sp] w1)))
                | (None, n1, w1) \<Rightarrow>
                    (let (err, c1, w2) = wait_own e (set_Next (Some n1) c) w1;
                         w3 = emit [Close (closer c1)] w2;
                         (err', nx, w4) =
                           (case err of
                              None \<Rightarrow> Wait e n1 w3
                            | Some er \<Rightarrow> (Some er, n1, fail_next c1 n1 w3));
                         c2 = set_Next (Some nx) c1
                     in (err', c2, finish sp (Cmd c2) err' w4))))"
  by pat_completeness auto
termination
  apply (relation "measure (\<lambda>(e, c, w). length (chain c))")
   apply simp
  apply (auto dest!: Start_chain_length [OF sym] chain_length_Next)
  done

declare Wait.simps [simp del]

text \<open>\<^verbatim>\<open>func (c *Cmd) Run() error\<close>.\<close>

definition Run :: "env \<Rightarrow> Cmd \<Rightarrow> world \<Rightarrow> error option \<times> Cmd \<times> world" where
  "Run e c w =
     (case Start e c w of
        (Some er, c1, w1) \<Rightarrow> (Some er, c1, w1)
      | (None, c1, w1) \<Rightarrow> Wait e c1 w1)"

text \<open>\<^verbatim>\<open>func (c *Cmd) String() string\<close>.\<close>

fun String :: "Cmd \<Rightarrow> string" where
  "String (MkCmd b None x se cl tr lg) = exec_String b"
| "String (MkCmd b (Some n) x se cl tr lg) = exec_String b @ '' | '' @ String n"

section \<open>Construction and options\<close>

text \<open>
  \<^verbatim>\<open>exec.CommandContext(ctx, name)\<close> of the standard library: a name without a path
  separator is searched for; the path found replaces the name, and the error of the
  search is kept in \<open>Err\<close>.
\<close>

definition exec_CommandContext :: "env \<Rightarrow> string \<Rightarrow> exec_Cmd" where
  "exec_CommandContext e name =
     (let b = \<lparr>Path = name, Args = [name], Env = [], Stdin = None, Stdout = None,
               Stderr = None, Process = None, ProcessState = None, Err = None\<rparr>
      in if Base e name = name
         then (let (lp, err) = LookPath e name
               in b\<lparr>Path := (if lp \<noteq> [] then lp else name), Err := err\<rparr>)
         else b)"

text \<open>
  The body of \<^verbatim>\<open>if cmd.Next.Err == nil { ... }\<close> in \<^verbatim>\<open>setupCmd\<close>, with \<open>p\<close> the
  pipe that \<^verbatim>\<open>io.Pipe()\<close> returns: the stage and its next stage after the assignments.
\<close>

definition wire :: "nat \<Rightarrow> Cmd \<Rightarrow> Cmd \<Rightarrow> Cmd \<times> Cmd" where
  "wire p c n =
     (let n1 = set_logger (logger c) (set_tracer (tracer c)
                 (set_Cmd ((Cmd n)\<lparr>Stdout := Stdout (Cmd c), Stdin := Some (PipeReader p),
                                   Stderr := Stderr (Cmd c), Env := Env (Cmd c)\<rparr>) n));
          c1 = set_closer (PipeCloser p)
                 (set_Cmd ((Cmd c)\<lparr>Stdout := Some (PipeWriter p)\<rparr>) c)
      in (c1, n1))"

lemma chain_length_wire: "length (chain (snd (wire p c n))) = length (chain n)"
  by (cases n; cases "Next n")
     (simp_all add: wire_def Let_def set_logger_def set_tracer_def set_Cmd_def chain_length_MkCmd)

text \<open>\<^verbatim>\<open>func setupCmd(cmd *Cmd) error\<close>: the wiring pass.\<close>

function setupCmd :: "env \<Rightarrow> Cmd \<Rightarrow> world \<Rightarrow> error option \<times> Cmd \<times> world" where
  "setupCmd e c w =
     (if Err (Cmd c) \<noteq> None
      then (Err (Cmd c), c,
            emit [LogDebug (logger c) (ctx c) (Base e (Path (Cmd c)) @ '' not found'') []] w)
      else case Next c of
             None \<Rightarrow> (None, c, w)
           | Some n \<Rightarrow>
               (if Err (Cmd n) = None
                then (let (err, n2, w2) =
                            setupCmd e (snd (wire (fresh w) c n)) (w\<lparr>fresh := Suc (fresh w)\<rparr>)
                      in (err, set_Next (Some n2) (fst (wire (fresh w) c n)), w2))
                else (let (err, n2, w2) = setupCmd e n w
                      in (err, set_Next (Some n2) c, w2))))"
  by pat_completeness auto
termination
  apply (relation "measure (\<lambda>(e, c, w). length (chain c))")
    apply simp
   apply (simp add: chain_length_wire chain_length_Next)
  apply (simp add: chain_length_Next)
  done

declare setupCmd.simps [simp del]

text \<open>
  The options: an \<^verbatim>\<open>Option\<close> is made by one of the functions of the package only, its
  method being unexported. The map of \<^verbatim>\<open>WithEnvs\<close> is the list of its entries in the
  order the \<^verbatim>\<open>range\<close> loop visits them.
\<close>

datatype Option =
    Pipe string "string list"
  | WithArgs "string list"
  | WithEnv string string
  | WithEnvs "(string \<times> string) list"
  | WithStdin "reader option"
  | WithStdout "writer option"
  | WithStderr "writer option"
  | WithTracer tracer
  | WithLogger logger

fun weight :: "Option \<Rightarrow> nat" where
  "weight (Pipe name args) = 2"
| "weight opt = 1"

lemma weight_pos: "0 < weight opt"
  by (cases opt) simp_all

text \<open>
  \<^verbatim>\<open>applyOption\<close> of each option, the loop over the options, and
  \<^verbatim>\<open>func CommandContext(ctx, name, opts...) *Cmd\<close>, which \<^verbatim>\<open>Pipe\<close> calls for the new
  stage with the single option \<^verbatim>\<open>WithArgs(args...)\<close>.
\<close>

function applyOption :: "env \<Rightarrow> Option \<Rightarrow> Cmd \<Rightarrow> world \<Rightarrow> Cmd \<times> world"
  and applyOptions :: "env \<Rightarrow> Option list \<Rightarrow> Cmd \<Rightarrow> world \<Rightarrow> Cmd \<times> world"
  and CommandContext :: "env \<Rightarrow> Context \<Rightarrow> string \<Rightarrow> Option list \<Rightarrow> world \<Rightarrow> Cmd \<times> world"
where
  "applyOption e (Pipe name args) c w =
     (case Next c of
        None \<Rightarrow>
          (let (n, w1) = CommandContext e (ctx c) name [WithArgs args] w
           in (set_Next (Some n) c, w1))
      | Some n \<Rightarrow>
          (let (n1, w1) = applyOption e (Pipe name args) n w
           in (set_Next (Some n1) c, w1)))"
| "applyOption e (WithArgs args) c w = (set_Cmd ((Cmd c)\<lparr>Args := Path (Cmd c) # args\<rparr>) c, w)"
| "applyOption e (WithEnv key val) c w =
     (set_Cmd ((Cmd c)\<lparr>Env := Env (Cmd c) @ [key @ ''='' @ val]\<rparr>) c, w)"
| "applyOption e (WithEnvs envs) c w =
     (set_Cmd ((Cmd c)\<lparr>Env := Env (Cmd c) @ map (\<lambda>(key, val). key @ ''='' @ val) envs\<rparr>) c, w)"
| "applyOption e (WithStdin r) c w = (set_Cmd ((Cmd c)\<lparr>Stdin := r\<rparr>) c, w)"
| "applyOption e (WithStdout out) c w = (set_Cmd ((Cmd c)\<lparr>Stdout := out\<rparr>) c, w)"
| "applyOption e (WithStderr err) c w = (set_Cmd ((Cmd c)\<lparr>Stderr := err\<rparr>) c, w)"
| "applyOption e (WithTracer tr) c w = (set_tracer tr c, w)"
| "applyOption e (WithLogger lg) c w = (set_logger lg c, w)"
| "applyOptions e [] c w = (c, w)"
| "applyOptions e (opt # opts) c w =
     (let (c1, w1) = applyOption e opt c w in applyOptions e opts c1 w1)"
| "CommandContext e cx name opts w =
     (let c = MkCmd ((exec_CommandContext e (Clean e name))\<lparr>Env := Environ e\<rparr>) None cx
                (Buffer (fresh w)) NopCloser NoopTracer NoOpLogger;
          (c1, w1) = applyOptions e opts c (w\<lparr>fresh := Suc (fresh w)\<rparr>);
          (err, c2, w2) = setupCmd e c1 w1
      in (set_Cmd ((Cmd c2)\<lparr>Err := err\<rparr>) c2, w2))"
  by pat_completeness auto
termination
  apply (relation "inv_image (less_than <*lex*> less_than <*lex*> less_than)
     (\<lambda>x. case x of
        Inl (e, opt, c, w) \<Rightarrow> (weight opt, 0::nat, length (chain c))
      | Inr (Inl (e, opts, c, w)) \<Rightarrow> (sum_list (map weight opts), 1, 0)
      | Inr (Inr (e, cx, name, opts, w)) \<Rightarrow> (sum_list (map weight opts), 2, 0))")
  apply (auto simp: chain_length_Next weight_pos)
  done

declare applyOption.simps [simp del] applyOptions.simps [simp del] CommandContext.simps [simp del]

text \<open>\<^verbatim>\<open>func Command(name string, opts ...Option) *Cmd\<close>.\<close>

definition Command :: "env \<Rightarrow> string \<Rightarrow> Option list \<Rightarrow> world \<Rightarrow> Cmd \<times> world" where
  "Command e name opts w = CommandContext e Background name opts w"

text \<open>\<^verbatim>\<open>func RunWithContext(ctx, name, opts...) (*Cmd, error)\<close>.\<close>

definition RunWithContext ::
  "env \<Rightarrow> Context \<Rightarrow> string \<Rightarrow> Option list \<Rightarrow> world \<Rightarrow> Cmd \<times> error option \<times> world" where
  "RunWithContext e cx name opts w =
     (let (cmd, w1) = CommandContext e cx name opts w
      in case Err (Cmd cmd) of
           Some er \<Rightarrow> (cmd, Some er, emit [LogDebug (logger cmd) cx (Error er) []] w1)
         | None \<Rightarrow> (let (err, cmd1, w2) = Run e cmd w1 in (cmd1, err, w2)))"

text \<open>\<^verbatim>\<open>func Run(name string, opts ...Option) (*Cmd, error)\<close> of the package.\<close>

definition Run_name :: "env \<Rightarrow> string \<Rightarrow> Option list \<Rightarrow> world \<Rightarrow> Cmd \<times> error option \<times> world" where
  "Run_name e name opts w = RunWithContext e Background name opts w"

section \<open>Reading the event list\<close>

text \<open>The events other than log events: spans, processes and closers.\<close>

fun is_log :: "event \<Rightarrow> bool" where
  "is_log (LogDebug lg cx msg kvs) = True"
| "is_log ev = False"

definition loud :: "world \<Rightarrow> event list" where
  "loud w = filter (\<lambda>ev. \<not> is_log ev) (events w)"

text \<open>
  A stage is resolved when it carries no construction error; a stage shares the
  configuration of another when it has its tracer and its logger.
\<close>

definition resolved :: "Cmd \<Rightarrow> bool" where
  "resolved n = (Err (Cmd n) = None)"

definition shares :: "Cmd \<Rightarrow> Cmd \<Rightarrow> bool" where
  "shares c n = (tracer n = tracer c \<and> logger n = logger c)"

definition config :: "Cmd \<Rightarrow> tracer \<times> logger" where
  "config n = (tracer n, logger n)"

text \<open>The fields of a stage other than the pointer to the next stage.\<close>

definition stage :: "Cmd \<Rightarrow> exec_Cmd \<times> Context \<times> writer \<times> closer \<times> tracer \<times> logger" where
  "stage c = (Cmd c, ctx c, stdErr c, closer c, tracer c, logger c)"

fun is_Pipe :: "Option \<Rightarrow> bool" where
  "is_Pipe (Pipe name args) = True"
| "is_Pipe opt = False"

text \<open>
  The process events of a world, in order, each with the path of its command; how often
  a span was ended; how often a closer was closed.
\<close>

datatype proc_event = Started string | Waited string

fun proc_of :: "event \<Rightarrow> proc_event list" where
  "proc_of (ProcStart b) = [Started (Path b)]"
| "proc_of (ProcWait b) = [Waited (Path b)]"
| "proc_of ev = []"

definition procs :: "world \<Rightarrow> proc_event list" where
  "procs w = concat (map proc_of (events w))"

definition ends :: "span \<Rightarrow> world \<Rightarrow> nat" where
  "ends sp w = length (filter (\<lambda>ev. ev = SpanEnd sp) (events w))"

definition closes :: "closer \<Rightarrow> world \<Rightarrow> nat" where
  "closes cl w = length (filter (\<lambda>ev. ev = Close cl) (events w))"

text \<open>
  A chain none of whose stages has a construction error, a process handle or exit
  information.
\<close>

fun unstarted :: "Cmd \<Rightarrow> bool" where
  "unstarted (MkCmd b None x se cl tr lg) =
     (Err b = None \<and> Process b = None \<and> ProcessState b = None)"
| "unstarted (MkCmd b (Some n) x se cl tr lg) =
     (Err b = None \<and> Process b = None \<and> ProcessState b = None \<and> unstarted n)"

text \<open>A stage that has been started and waited on.\<close>

definition waited :: "Cmd \<Rightarrow> bool" where
  "waited n = (Process (Cmd n) \<noteq> None \<and> ProcessState (Cmd n) \<noteq> None)"

text \<open>
  What the underlying wait of a started stage leaves: the stage with its exit information,
  and the events of \<^verbatim>\<open>c.Cmd.Wait()\<close> and of the log call that follows a failure.
\<close>

definition exited :: "env \<Rightarrow> Cmd \<Rightarrow> Cmd" where
  "exited e c = set_Cmd ((Cmd c)\<lparr>ProcessState := Some (exit_code (await e (Cmd c)))\<rparr>) c"

definition own_wait_events :: "env \<Rightarrow> Cmd \<Rightarrow> event list" where
  "own_wait_events e c =
     ProcWait (Cmd c) #
     (case werr (await e (Cmd c)) of
        None \<Rightarrow> []
      | Some er \<Rightarrow>
          [LogDebug (logger c) (ctx c)
             (''failed to execute `'' @ Base e (Path (Cmd c)) @ ''`'')
             [(''exec.error'', LErr er),
              (''exec.exit_code'', LInt (exit_code (await e (Cmd c)))),
              (''exec.command'', LStr (exec_String (Cmd c))),
              (''exec.output'', LStr (Trim (captured e c) [CHR 0x0D, CHR 0x0A, CHR '' '']))]])"

definition path_of :: "Cmd \<Rightarrow> string" where
  "path_of n = Path (Cmd n)"

text \<open>The attribute \<^verbatim>\<open>exec.args\<close> of each span that was started, in order.\<close>

fun span_args_of :: "event \<Rightarrow> string list list" where
  "span_args_of (SpanStart tr s parent name args) = [args]"
| "span_args_of ev = []"

definition span_args :: "world \<Rightarrow> string list list" where
  "span_args w = concat (map span_args_of (events w))"

text \<open>The argument list of each command handed to the spawn primitive, in order.\<close>

fun spawned_args_of :: "event \<Rightarrow> string list list" where
  "spawned_args_of (ProcStart b) = [Args b]"
| "spawned_args_of ev = []"

definition spawned_args :: "world \<Rightarrow> string list list" where
  "spawned_args w = concat (map spawned_args_of (events w))"

text \<open>
  The underlying command as \<^verbatim>\<open>Start\<close> hands it to \<^verbatim>\<open>c.Cmd.Start()\<close>: the stderr sink
  rewired to the private buffer and the two trace entries appended to the environment.
\<close>

definition staged :: "env \<Rightarrow> Cmd \<Rightarrow> world \<Rightarrow> exec_Cmd" where
  "staged e c w =
     (Cmd c)\<lparr>Stderr :=
                (case Stderr (Cmd c) of
                   None \<Rightarrow> Some (stdErr c)
                 | Some old \<Rightarrow> Some (MultiWriter [stdErr c, old])),
              Env := Env (Cmd c) @
                [''TRACE_ID='' @ TraceID e (fresh w), ''SPAN_ID='' @ SpanID e (fresh w)]\<rparr>"

section \<open>Example runs\<close>

text \<open>
  An operating system where every name but \<^verbatim>\<open>not_found\<close> resolves under \<^verbatim>\<open>/bin\<close>,
  spawning \<^verbatim>\<open>/bin/bad\<close> fails, and \<^verbatim>\<open>/bin/false\<close> exits with code 1.
\<close>

definition ex_env :: env where
  "ex_env =
     \<lparr>Environ = [''HOME=/root''],
      Clean = (\<lambda>s. s),
      Base = (\<lambda>s. s),
      LookPath = (\<lambda>s. if s = ''not_found'' then ([], Some (execError s ErrNotFound))
                        else (''/bin/'' @ s, None)),
      spawn = (\<lambda>b. if Path b = ''/bin/bad''
                     then Some (osError ''fork/exec /bin/bad: permission denied'') else None),
      await = (\<lambda>b. if Path b = ''/bin/false''
                     then \<lparr>werr = Some (ExitError 1), exit_code = 1, stderr_out = ''oops''\<rparr>
                     else \<lparr>werr = None, exit_code = 0, stderr_out = []\<rparr>),
      TraceID = (\<lambda>n. ''t'' @ digits n),
      SpanID = (\<lambda>n. ''s'' @ digits n)\<rparr>"

definition ex_world :: world where
  "ex_world = \<lparr>events = [], fresh = 0\<rparr>"

text \<open>A descriptor that was built and not started, one that runs, one that has exited.\<close>

definition ex_created :: Cmd where
  "ex_created =
     MkCmd \<lparr>Path = ''/bin/echo'', Args = [''/bin/echo'', ''hello world''], Env = [''HOME=/root''],
            Stdin = None, Stdout = None, Stderr = None, Process = None, ProcessState = None,
            Err = None\<rparr>
       None Background (Buffer 0) NopCloser NoopTracer NoOpLogger"

definition ex_started :: Cmd where
  "ex_started =
     MkCmd \<lparr>Path = ''/bin/echo'', Args = [''/bin/echo'', ''hello world''],
            Env = [''HOME=/root'', ''TRACE_ID=t1'', ''SPAN_ID=s1''],
            Stdin = None, Stdout = None, Stderr = Some (Buffer 0), Process = Some 2,
            ProcessState = None, Err = None\<rparr>
       None (ContextWithSpan 1 Background) (Buffer 0) NopCloser NoopTracer NoOpLogger"

definition ex_waited :: Cmd where
  "ex_waited = set_Cmd ((Cmd ex_started)\<lparr>ProcessState := Some 0\<rparr>) ex_started"

text \<open>A descriptor that was built and not started, with a stderr sink of the caller.\<close>

definition ex_bad :: Cmd where
  "ex_bad =
     MkCmd \<lparr>Path = ''/bin/bad'', Args = [''/bin/bad''], Env = [''HOME=/root''],
            Stdin = None, Stdout = None, Stderr = Some (UserWriter 7), Process = None,
            ProcessState = None, Err = None\<rparr>
       None Background (Buffer 0) NopCloser NoopTracer NoOpLogger"

text \<open>
  An operating system as before, except that a spawn fails as long as the environment of
  the command has fewer than five entries; and what the first \<^verbatim>\<open>Start\<close> of the
  descriptor above leaves there.
\<close>

definition ex_flaky :: env where
  "ex_flaky =
     ex_env\<lparr>spawn := (\<lambda>b. if length (Env b) < 5
                            then Some (osError ''fork/exec: resource temporarily unavailable'')
                            else None)\<rparr>"

definition ex_retry :: "Cmd \<times> world" where
  "ex_retry = snd (Start ex_flaky ex_bad ex_world)"

text \<open>
  A chain before the wiring pass: \<^verbatim>\<open>echo | cat | not_found | sed\<close>, whose head has a
  tracer and a logger of the caller and whose third stage did not resolve.
\<close>

definition ex_stage :: "string \<Rightarrow> error option \<Rightarrow> Cmd option \<Rightarrow> nat \<Rightarrow> tracer \<Rightarrow> logger \<Rightarrow> Cmd" where
  "ex_stage name err nx k tr lg =
     MkCmd \<lparr>Path = name, Args = [name], Env = [''HOME=/root''], Stdin = None, Stdout = None,
            Stderr = None, Process = None, ProcessState = None, Err = err\<rparr>
       nx Background (Buffer k) NopCloser tr lg"

definition ex_unwired :: Cmd where
  "ex_unwired =
     ex_stage ''/bin/echo'' None
       (Some (ex_stage ''/bin/cat'' None
          (Some (ex_stage ''not_found'' (Some (execError ''not_found'' ErrNotFound))
             (Some (ex_stage ''/bin/sed'' None None 3 NoopTracer NoOpLogger))
             2 NoopTracer NoOpLogger))
          1 NoopTracer NoOpLogger))
       0 (UserTracer 1) (UserLogger 2)"

text \<open>
  The pipeline \<^verbatim>\<open>false | cat | sed\<close> after its head has been started, with the world
  at that moment; and the pipeline \<^verbatim>\<open>echo | bad\<close> likewise.
\<close>

definition ex_false_cat_sed :: "Cmd \<times> world" where
  "ex_false_cat_sed =
     snd (Start ex_env
            (fst (Command ex_env ''false'' [Pipe ''cat'' [], Pipe ''sed'' []] ex_world))
            (snd (Command ex_env ''false'' [Pipe ''cat'' [], Pipe ''sed'' []] ex_world)))"

definition ex_echo_bad :: "Cmd \<times> world" where
  "ex_echo_bad =
     snd (Start ex_env
            (fst (Command ex_env ''echo'' [Pipe ''bad'' []] ex_world))
            (snd (Command ex_env ''echo'' [Pipe ''bad'' []] ex_world)))"

definition ex_cat_sed :: Cmd where
  "ex_cat_sed = the (Next (fst ex_false_cat_sed))"

definition ex_bad_stage :: Cmd where
  "ex_bad_stage = the (Next (fst ex_echo_bad))"

text \<open>The pipeline \<^verbatim>\<open>echo | cat | sed\<close> after its head has been started.\<close>

definition ex_echo_cat_sed :: "Cmd \<times> world" where
  "ex_echo_cat_sed =
     snd (Start ex_env
            (fst (Command ex_env ''echo'' [Pipe ''cat'' [], Pipe ''sed'' []] ex_world))
            (snd (Command ex_env ''echo'' [Pipe ''cat'' [], Pipe ''sed'' []] ex_world)))"

definition ex_cat_sed_ok :: Cmd where
  "ex_cat_sed_ok = the (Next (fst ex_echo_cat_sed))"

text \<open>A transform a caller would want applied to the arguments that reach telemetry.\<close>

definition ex_redact :: "string list \<Rightarrow> string list" where
  "ex_redact args = (case args of [] \<Rightarrow> [] | a # rest \<Rightarrow> a # map (\<lambda>x. ''***'') rest)"

section \<open>Basic facts about chains\<close>

lemmas setters = set_Cmd_def set_Next_def set_ctx_def set_closer_def set_tracer_def set_logger_def

lemma chain_unfold:
  "chain c = c # (case Next c of None \<Rightarrow> [] | Some n \<Rightarrow> chain n)"
  by (cases c; cases "Next c") simp_all

lemma chain_tail: "Next c = None \<Longrightarrow> chain c = [c]"
  by (subst chain_unfold) simp

lemma chain_length_set_Cmd: "length (chain (set_Cmd b c)) = length (chain c)"
  by (cases c; cases "Next c") (simp_all add: set_Cmd_def)

lemma chain_set_Next_Some: "chain (set_Next (Some n) c) = set_Next (Some n) c # chain n"
  by (simp add: set_Next_def)

lemma wire_fst:
  "tracer (fst (wire p c n)) = tracer c" "logger (fst (wire p c n)) = logger c"
  "Err (Cmd (fst (wire p c n))) = Err (Cmd c)"
  by (simp_all add: wire_def setters)

lemma wire_snd:
  "tracer (snd (wire p c n)) = tracer c" "logger (snd (wire p c n)) = logger c"
  "Err (Cmd (snd (wire p c n))) = Err (Cmd n)" "Next (snd (wire p c n)) = Next n"
  by (simp_all add: wire_def setters)

lemma setter_simps [simp]:
  "Cmd (set_Next nx c) = Cmd c" "ctx (set_Next nx c) = ctx c" "stdErr (set_Next nx c) = stdErr c"
  "closer (set_Next nx c) = closer c" "tracer (set_Next nx c) = tracer c"
  "logger (set_Next nx c) = logger c" "Next (set_Next nx c) = nx"
  "Cmd (set_Cmd b c) = b" "ctx (set_Cmd b c) = ctx c" "stdErr (set_Cmd b c) = stdErr c"
  "closer (set_Cmd b c) = closer c" "tracer (set_Cmd b c) = tracer c"
  "logger (set_Cmd b c) = logger c" "Next (set_Cmd b c) = Next c"
  "set_Next nx (set_Next nx' c) = set_Next nx c"
  "set_Next nx (set_Cmd b (set_Next nx' c)) = set_Next nx (set_Cmd b c)"
  by (simp_all add: setters)

lemma events_emit [simp]: "events (emit evs w) = events w @ evs"
  by (simp add: emit_def)

lemma fresh_emit [simp]: "fresh (emit evs w) = fresh w"
  by (simp add: emit_def)

lemma emit_emit: "emit evs2 (emit evs1 w) = emit (evs1 @ evs2) w"
  by (simp add: emit_def)

section \<open>The branches of Wait\<close>

lemma exited_simps [simp]:
  "Cmd (exited e c) = (Cmd c)\<lparr>ProcessState := Some (exit_code (await e (Cmd c)))\<rparr>"
  "ctx (exited e c) = ctx c" "Next (exited e c) = Next c" "closer (exited e c) = closer c"
  "tracer (exited e c) = tracer c" "logger (exited e c) = logger c" "stdErr (exited e c) = stdErr c"
  by (simp_all add: exited_def)

lemma exited_set_Next: "exited e (set_Next nx c) = set_Next nx (exited e c)"
  by (simp add: exited_def setters)

lemma captured_set_Next [simp]: "captured e (set_Next nx c) = captured e c"
  by (cases "Stderr (Cmd c)") (simp_all add: captured_def)

lemma own_wait_events_set_Next [simp]: "own_wait_events e (set_Next nx c) = own_wait_events e c"
  by (cases "werr (await e (Cmd c))") (simp_all add: own_wait_events_def)

lemma wait_own_guarded:
  assumes "Process (Cmd c) \<noteq> None" and "ProcessState (Cmd c) = None"
  shows "wait_own e c w = (werr (await e (Cmd c)), exited e c, emit (own_wait_events e c) w)"
proof -
  from assms(1) obtain p where p: "Process (Cmd c) = Some p" by auto
  show ?thesis
    using p assms(2)
    by (cases "werr (await e (Cmd c))")
       (simp_all add: wait_own_def exec_Wait_def ExitCode_def exec_String_def exited_def
          own_wait_events_def emit_def)
qed

lemma Wait_tail:
  assumes "Process (Cmd c) \<noteq> None" and "ProcessState (Cmd c) = None" and "Next c = None"
  shows "Wait e c w =
     (werr (await e (Cmd c)), exited e c,
      finish (SpanFromContext (ctx c)) (Cmd (exited e c)) (werr (await e (Cmd c)))
        (emit (own_wait_events e c @ [Close (closer c)]) w))"
proof -
  from assms(1) obtain p where p: "Process (Cmd c) = Some p" by auto
  show ?thesis
    using p assms(2,3)
    by (subst Wait.simps) (simp add: wait_own_guarded [OF assms(1,2)] Let_def emit_emit)
qed

lemma Wait_next_not_started:
  assumes "Process (Cmd c) \<noteq> None" and "ProcessState (Cmd c) = None" and "Next c = Some n"
    and "Start e n w = (Some er, n1, w1)"
  shows "Wait e c w =
     (Some er, set_Next (Some n1) c,
      finish (SpanFromContext (ctx c)) (Cmd c) (Some er)
        (emit [SpanEnd (SpanFromContext (ctx c))] w1))"
proof -
  from assms(1) obtain p where p: "Process (Cmd c) = Some p" by auto
  show ?thesis
    using p assms(2-)
    by (subst Wait.simps) (simp add: Let_def)
qed

lemma Wait_own_failed:
  assumes "Process (Cmd c) \<noteq> None" and "ProcessState (Cmd c) = None" and "Next c = Some n"
    and "Start e n w = (None, n1, w1)" and "werr (await e (Cmd c)) = Some er"
  shows "Wait e c w =
     (Some er, set_Next (Some n1) (exited e c),
      finish (SpanFromContext (ctx c)) (Cmd (exited e c)) (Some er)
        (fail_next (exited e c) n1 (emit (own_wait_events e c @ [Close (closer c)]) w1)))"
proof -
  have g: "Process (Cmd (set_Next (Some n1) c)) \<noteq> None" "ProcessState (Cmd (set_Next (Some n1) c)) = None"
    using assms(1,2) by simp_all
  have fn: "fail_next (set_Next nx (exited e c)) n1 w' = fail_next (exited e c) n1 w'" for nx w'
    by (simp add: fail_next_def)
  from assms(1) obtain p where p: "Process (Cmd c) = Some p" by auto
  show ?thesis
    using p assms(2-)
    by (subst Wait.simps)
       (simp add: wait_own_guarded [OF g] Let_def emit_emit exited_set_Next fn)
qed

lemma Wait_own_succeeded:
  assumes "Process (Cmd c) \<noteq> None" and "ProcessState (Cmd c) = None" and "Next c = Some n"
    and "Start e n w = (None, n1, w1)" and "werr (await e (Cmd c)) = None"
  shows "Wait e c w =
     (fst (Wait e n1 (emit [ProcWait (Cmd c), Close (closer c)] w1)),
      set_Next (Some (fst (snd (Wait e n1 (emit [ProcWait (Cmd c), Close (closer c)] w1)))))
        (exited e c),
      finish (SpanFromContext (ctx c)) (Cmd (exited e c))
        (fst (Wait e n1 (emit [ProcWait (Cmd c), Close (closer c)] w1)))
        (snd (snd (Wait e n1 (emit [ProcWait (Cmd c), Close (closer c)] w1)))))"
proof -
  have g: "Process (Cmd (set_Next (Some n1) c)) \<noteq> None" "ProcessState (Cmd (set_Next (Some n1) c)) = None"
    using assms(1,2) by simp_all
  have ev: "own_wait_events e c = [ProcWait (Cmd c)]"
    using assms(5) by (simp add: own_wait_events_def)
  from assms(1) obtain p where p: "Process (Cmd c) = Some p" by auto
  show ?thesis
    using p assms(2-)
    by (subst Wait.simps)
       (simp add: wait_own_guarded [OF g] Let_def emit_emit exited_set_Next ev case_prod_beta)
qed

section \<open>Events of Start and Wait\<close>

lemma procs_emit: "procs (emit evs w) = procs w @ concat (map proc_of evs)"
  by (simp add: procs_def)

lemma procs_finish [simp]: "procs (finish sp b err w) = procs w"
  by (cases err) (simp_all add: finish_def procs_def)

lemma procs_fail_next [simp]: "procs (fail_next c n w) = procs w"
  by (simp add: fail_next_def procs_def)

lemma procs_own_wait_events [simp]: "concat (map proc_of (own_wait_events e c)) = [Waited (Path (Cmd c))]"
  by (cases "werr (await e (Cmd c))") (simp_all add: own_wait_events_def)

lemma unstarted_unfold:
  "unstarted c = (Err (Cmd c) = None \<and> Process (Cmd c) = None \<and> ProcessState (Cmd c) = None \<and>
                  (case Next c of None \<Rightarrow> True | Some n \<Rightarrow> unstarted n))"
  by (cases c; cases "Next c") simp_all

lemma unstarted_set_ctx [simp]: "unstarted (set_ctx x c) = unstarted c"
  by (cases c; cases "Next c") (simp_all add: set_ctx_def)

lemma chain_set_ctx_paths [simp]: "map path_of (chain (set_ctx x c)) = map path_of (chain c)"
  by (cases c; cases "Next c") (simp_all add: set_ctx_def path_of_def)

lemma Start_succeeds:
  assumes "Process (Cmd n) = None" and "Err (Cmd n) = None"
    and "\<forall>b. Path b = Path (Cmd n) \<longrightarrow> spawn e b = None"
  shows "\<exists>n1 w1. Start e n w = (None, n1, w1) \<and>
           Process (Cmd n1) \<noteq> None \<and> ProcessState (Cmd n1) = ProcessState (Cmd n) \<and>
           Path (Cmd n1) = Path (Cmd n) \<and>
           Next n1 = map_option (set_ctx (ctx n1)) (Next n)"
  using assms
  by (simp add: Start_def tracer_Start_def exec_Start_def Let_def)

lemma procs_Start:
  assumes "Process (Cmd n) = None" and "Err (Cmd n) = None"
  shows "procs (snd (snd (Start e n w))) = procs w @ [Started (Path (Cmd n))]"
  using assms
  by (simp add: Start_def tracer_Start_def exec_Start_def Let_def procs_def split: option.splits)

lemma events_Start: "\<exists>evs. events (snd (snd (Start e n w))) = events w @ evs"
  by (simp add: Start_def tracer_Start_def exec_Start_def Let_def split: option.splits)

lemma events_Wait: "\<exists>evs. events (snd (snd (Wait e c w))) = events w @ evs"
proof (induction "length (chain c)" arbitrary: c w rule: less_induct)
  case less
  show ?case
  proof (cases "Process (Cmd c) \<noteq> None \<and> ProcessState (Cmd c) = None")
    case False
    then show ?thesis
      by (subst Wait.simps) auto
  next
    case True
    then have g: "Process (Cmd c) \<noteq> None" "ProcessState (Cmd c) = None" by simp_all
    show ?thesis
    proof (cases "Next c")
      case None
      show ?thesis
        by (cases "werr (await e (Cmd c))") (simp_all add: Wait_tail [OF g None] finish_def)
    next
      case (Some n)
      obtain serr n1 w1 where st: "Start e n w = (serr, n1, w1)"
        by (cases "Start e n w") auto
      obtain evs1 where w1: "events w1 = events w @ evs1"
        using events_Start [of e n w] st by auto
      show ?thesis
      proof (cases serr)
        case (Some er)
        then show ?thesis
          using st w1 by (simp add: Wait_next_not_started [OF g \<open>Next c = Some n\<close>] finish_def)
      next
        case None
        with st have st': "Start e n w = (None, n1, w1)" by simp
        show ?thesis
        proof (cases "werr (await e (Cmd c))")
          case (Some er)
          show ?thesis
            using w1
            by (simp add: Wait_own_failed [OF g \<open>Next c = Some n\<close> st' Some] finish_def fail_next_def)
        next
          case None
          have "length (chain n1) < length (chain c)"
            using Start_chain_length [OF st'] chain_length_Next [OF \<open>Next c = Some n\<close>] by simp
          from less [OF this, of "emit [ProcWait (Cmd c), Close (closer c)] w1"]
          obtain evs2 where
            "events (snd (snd (Wait e n1 (emit [ProcWait (Cmd c), Close (closer c)] w1)))) =
               events (emit [ProcWait (Cmd c), Close (closer c)] w1) @ evs2"
            by auto
          then show ?thesis
            using w1
            by (cases "fst (Wait e n1 (emit [ProcWait (Cmd c), Close (closer c)] w1))")
               (simp_all add: Wait_own_succeeded [OF g \<open>Next c = Some n\<close> st' None] finish_def)
        qed
      qed
    qed
  qed
qed

section \<open>Wait on a stage with a next stage\<close>

lemma Start_succeeded_fields:
  assumes "Start e n w = (None, n1, w1)"
  shows "Process (Cmd n) = None" and "Process (Cmd n1) \<noteq> None"
    and "ctx n1 = ContextWithSpan (fresh w) (ctx n)"
    and "ProcessState (Cmd n1) = ProcessState (Cmd n)"
  using assms
  by (auto simp: Start_def tracer_Start_def exec_Start_def Let_def
           split: if_splits option.splits)

lemma all_waited:
  assumes "Process (Cmd c) \<noteq> None" and "ProcessState (Cmd c) = None"
    and "case Next c of None \<Rightarrow> True | Some n \<Rightarrow> unstarted n"
    and "\<forall>b. Path b \<in> set (map path_of (chain c)) \<longrightarrow> spawn e b = None \<and> werr (await e b) = None"
  shows "fst (Wait e c w) = None \<and> (\<forall>m \<in> set (chain (fst (snd (Wait e c w)))). waited m)"
  using assms
proof (induction "length (chain c)" arbitrary: c w rule: less_induct)
  case less
  note g = less.prems(1,2)
  have own: "werr (await e (Cmd c)) = None"
    using less.prems(4) by (subst (asm) chain_unfold) (simp add: path_of_def)
  have w_c: "waited (set_Next nx (exited e c))" for nx
    using g by (simp add: waited_def)
  show ?case
  proof (cases "Next c")
    case None
    have "chain (exited e c) = [exited e c]"
      using None by (simp add: chain_tail)
    then show ?thesis
      using own w_c [of None] None g
      by (simp add: Wait_tail [OF g None] waited_def)
  next
    case (Some n)
    have c_chain: "chain c = c # chain n"
      using Some by (subst chain_unfold) simp
    have un: "unstarted n"
      using less.prems(3) Some by simp
    then have n0: "Err (Cmd n) = None" "Process (Cmd n) = None" "ProcessState (Cmd n) = None"
      "case Next n of None \<Rightarrow> True | Some m \<Rightarrow> unstarted m"
      by (subst (asm) unstarted_unfold, simp)+
    have sp: "\<forall>b. Path b = Path (Cmd n) \<longrightarrow> spawn e b = None"
      using less.prems(4) unfolding c_chain
      by (subst (asm) chain_unfold) (simp add: path_of_def)
    from Start_succeeds [OF n0(2) n0(1) sp, of w] obtain n1 w1 where
      st: "Start e n w = (None, n1, w1)" and
      n1: "Process (Cmd n1) \<noteq> None" "ProcessState (Cmd n1) = ProcessState (Cmd n)"
          "Path (Cmd n1) = Path (Cmd n)" "Next n1 = map_option (set_ctx (ctx n1)) (Next n)"
      by blast
    have len: "length (chain n1) < length (chain c)"
      using Start_chain_length [OF st] chain_length_Next [OF Some] by simp
    have nx1: "case Next n1 of None \<Rightarrow> True | Some m \<Rightarrow> unstarted m"
      using n0(4) n1(4) by (cases "Next n") simp_all
    have "chain n1 = n1 # (case Next n1 of None \<Rightarrow> [] | Some m \<Rightarrow> chain m)"
      by (rule chain_unfold)
    moreover have "chain n = n # (case Next n of None \<Rightarrow> [] | Some m \<Rightarrow> chain m)"
      by (rule chain_unfold)
    ultimately have paths: "map path_of (chain n1) = map path_of (chain n)"
      using n1(3,4) by (cases "Next n") (simp_all add: path_of_def)
    have benign: "\<forall>b. Path b \<in> set (map path_of (chain n1)) \<longrightarrow>
                     spawn e b = None \<and> werr (await e b) = None"
      using less.prems(4) unfolding c_chain paths by simp
    have g1: "Process (Cmd n1) \<noteq> None" "ProcessState (Cmd n1) = None"
      using n1(1,2) n0(3) by simp_all
    note IH = less.hyps [OF len g1 nx1 benign, of "emit [ProcWait (Cmd c), Close (closer c)] w1"]
    show ?thesis
      using IH w_c
      by (simp add: Wait_own_succeeded [OF g Some st own] chain_set_Next_Some)
  qed
qed

text \<open>
  C1 as stated fails in its last sentence: in \<^verbatim>\<open>false | cat | sed\<close> the head exits
  with code 1, and when \<^verbatim>\<open>Wait\<close> on the head returns that error the second stage has
  been spawned and never waited on, and the third stage has never been started.
\<close>

theorem pipeline_drained_counterexample:
  "Process (Cmd (fst ex_false_cat_sed)) \<noteq> None \<and>
   ProcessState (Cmd (fst ex_false_cat_sed)) = None \<and>
   fst (Wait ex_env (fst ex_false_cat_sed) (snd ex_false_cat_sed)) = Some (ExitError 1) \<and>
   map path_of (chain (fst (snd (Wait ex_env (fst ex_false_cat_sed) (snd ex_false_cat_sed))))) =
     [''/bin/false'', ''/bin/cat'', ''/bin/sed''] \<and>
   map (Process \<circ> Cmd) (chain (fst (snd (Wait ex_env (fst ex_false_cat_sed) (snd ex_false_cat_sed))))) =
     [Some 6, Some 8, None] \<and>
   map (ProcessState \<circ> Cmd)
     (chain (fst (snd (Wait ex_env (fst ex_false_cat_sed) (snd ex_false_cat_sed))))) =
     [Some 1, None, None] \<and>
   procs (snd (snd (Wait ex_env (fst ex_false_cat_sed) (snd ex_false_cat_sed)))) =
     [Started ''/bin/false'', Started ''/bin/cat'', Waited ''/bin/false'']"
  by code_simp

text \<open>
  C1, amended. \<^verbatim>\<open>Wait\<close> on a started stage starts the next stage first, whatever
  the outcome of that start; when it has succeeded, the stage's own underlying wait follows
  at once. If it succeeds, the
  result of \<^verbatim>\<open>Wait\<close> is the result of \<^verbatim>\<open>Wait\<close> on the next stage. If it fails,
  \<^verbatim>\<open>Wait\<close> returns this stage's error, the next stage is left as its start left it
  (it is not waited on), and the events are the wait, the log call, the closer, then on the
  span of the next stage the error status with the message naming the command and its exit
  code and the end of that span, then the attribute, error, status and end of this stage's
  span. When every command of the chain spawns and exits without error and no later stage
  has been touched, \<^verbatim>\<open>Wait\<close> returns nil and every stage of the chain has been started
  and waited on.
\<close>

theorem Wait_with_next_stage:
  assumes "Process (Cmd c) \<noteq> None" and "ProcessState (Cmd c) = None" and "Next c = Some n"
    and "Start e n w = (serr, n1, w1)"
  shows "(\<exists>evs. events (snd (snd (Wait e c w))) = events w1 @ evs) \<and>
         (serr = None \<longrightarrow>
            (\<exists>evs. events (snd (snd (Wait e c w))) = events w1 @ ProcWait (Cmd c) # evs)) \<and>
         (serr = None \<and> werr (await e (Cmd c)) = None \<longrightarrow>
            fst (Wait e c w) = fst (Wait e n1 (emit [ProcWait (Cmd c), Close (closer c)] w1))) \<and>
         (\<forall>er. serr = None \<and> werr (await e (Cmd c)) = Some er \<longrightarrow>
            fst (Wait e c w) = Some er \<and>
            Next (fst (snd (Wait e c w))) = Some n1 \<and>
            SpanFromContext (ctx n1) = Span (fresh w) \<and>
            events (snd (snd (Wait e c w))) =
              events w1 @ own_wait_events e c @
              [Close (closer c),
               SetStatus (Span (fresh w)) Err_code
                 (''`'' @ exec_String (Cmd c) @ ''` exited with code '' @
                  itoa (exit_code (await e (Cmd c)))),
               SpanEnd (Span (fresh w)),
               SetAttributes (SpanFromContext (ctx c)) (exit_code (await e (Cmd c))),
               RecordError (SpanFromContext (ctx c)) er,
               SetStatus (SpanFromContext (ctx c)) Err_code (Error er),
               SpanEnd (SpanFromContext (ctx c))]) \<and>
         (unstarted n \<and>
          (\<forall>b. Path b \<in> set (map path_of (chain c)) \<longrightarrow>
                 spawn e b = None \<and> werr (await e b) = None) \<longrightarrow>
            fst (Wait e c w) = None \<and>
            (\<forall>m \<in> set (chain (fst (snd (Wait e c w)))). waited m))"
proof -
  note g = assms(1,2)
  have own_ok: "fst (Wait e c w) = fst (Wait e n1 (emit [ProcWait (Cmd c), Close (closer c)] w1))"
    if "serr = None" and "werr (await e (Cmd c)) = None"
  proof -
    from that(1) assms(4) have st: "Start e n w = (None, n1, w1)" by simp
    show ?thesis
      by (simp add: Wait_own_succeeded [OF g assms(3) st that(2)])
  qed
  have own_failed: "fst (Wait e c w) = Some er \<and>
            Next (fst (snd (Wait e c w))) = Some n1 \<and>
            SpanFromContext (ctx n1) = Span (fresh w) \<and>
            events (snd (snd (Wait e c w))) =
              events w1 @ own_wait_events e c @
              [Close (closer c),
               SetStatus (Span (fresh w)) Err_code
                 (''`'' @ exec_String (Cmd c) @ ''` exited with code '' @
                  itoa (exit_code (await e (Cmd c)))),
               SpanEnd (Span (fresh w)),
               SetAttributes (SpanFromContext (ctx c)) (exit_code (await e (Cmd c))),
               RecordError (SpanFromContext (ctx c)) er,
               SetStatus (SpanFromContext (ctx c)) Err_code (Error er),
               SpanEnd (SpanFromContext (ctx c))]"
    if "serr = None" and "werr (await e (Cmd c)) = Some er" for er
  proof -
    from that(1) assms(4) have st: "Start e n w = (None, n1, w1)" by simp
    have sp: "SpanFromContext (ctx n1) = Span (fresh w)"
      using Start_succeeded_fields(3) [OF st] by simp
    show ?thesis
      using sp
      by (simp add: Wait_own_failed [OF g assms(3) st that(2)] finish_def fail_next_def
            exec_String_def ExitCode_def)
  qed
  have own_first: "\<exists>evs. events (snd (snd (Wait e c w))) = events w1 @ ProcWait (Cmd c) # evs"
    if "serr = None"
  proof (cases "werr (await e (Cmd c))")
    case (Some er)
    have "own_wait_events e c = ProcWait (Cmd c) # tl (own_wait_events e c)"
      by (simp add: own_wait_events_def)
    then show ?thesis
      using own_failed [OF that Some] by (metis append_Cons)
  next
    case None
    from that assms(4) have st: "Start e n w = (None, n1, w1)" by simp
    obtain evs where
      "events (snd (snd (Wait e n1 (emit [ProcWait (Cmd c), Close (closer c)] w1)))) =
         events (emit [ProcWait (Cmd c), Close (closer c)] w1) @ evs"
      using events_Wait by blast
    then show ?thesis
      by (cases "fst (Wait e n1 (emit [ProcWait (Cmd c), Close (closer c)] w1))")
         (simp_all add: Wait_own_succeeded [OF g assms(3) st None] finish_def)
  qed
  have first: "\<exists>evs. events (snd (snd (Wait e c w))) = events w1 @ evs"
  proof (cases serr)
    case (Some er)
    with assms(4) show ?thesis
      by (simp add: Wait_next_not_started [OF g assms(3)] finish_def)
  next
    case None
    from own_first [OF None] show ?thesis by blast
  qed
  have drained: "fst (Wait e c w) = None \<and> (\<forall>m \<in> set (chain (fst (snd (Wait e c w)))). waited m)"
    if "unstarted n" and "\<forall>b. Path b \<in> set (map path_of (chain c)) \<longrightarrow>
                 spawn e b = None \<and> werr (await e b) = None"
  proof -
    have "case Next c of None \<Rightarrow> True | Some n \<Rightarrow> unstarted n"
      using assms(3) that(1) by simp
    then show ?thesis
      using all_waited [OF g _ that(2)] by blast
  qed
  show ?thesis
    using first own_first own_ok own_failed drained by blast
qed

theorem Wait_with_next_stage_witness:
  "fst (Wait ex_env (fst ex_false_cat_sed) (snd ex_false_cat_sed)) = Some (ExitError 1) \<and>
   Next (fst (snd (Wait ex_env (fst ex_false_cat_sed) (snd ex_false_cat_sed)))) =
     Some (fst (snd (Start ex_env ex_cat_sed (snd ex_false_cat_sed)))) \<and>
   fst (Wait ex_env (fst ex_echo_cat_sed) (snd ex_echo_cat_sed)) = None \<and>
   waited (chain (fst (snd (Wait ex_env (fst ex_echo_cat_sed) (snd ex_echo_cat_sed)))) ! 2)"
proof -
  have a: "Process (Cmd (fst ex_false_cat_sed)) \<noteq> None"
    "ProcessState (Cmd (fst ex_false_cat_sed)) = None"
    "Next (fst ex_false_cat_sed) = Some ex_cat_sed"
    by code_simp+
  have a0: "fst (Start ex_env ex_cat_sed (snd ex_false_cat_sed)) = None"
    by code_simp
  have a4: "Start ex_env ex_cat_sed (snd ex_false_cat_sed) =
      (fst (Start ex_env ex_cat_sed (snd ex_false_cat_sed)),
       fst (snd (Start ex_env ex_cat_sed (snd ex_false_cat_sed))),
       snd (snd (Start ex_env ex_cat_sed (snd ex_false_cat_sed))))"
    by simp
  have a5: "werr (await ex_env (Cmd (fst ex_false_cat_sed))) = Some (ExitError 1)"
    by code_simp
  have b: "Process (Cmd (fst ex_echo_cat_sed)) \<noteq> None"
    "ProcessState (Cmd (fst ex_echo_cat_sed)) = None"
    "Next (fst ex_echo_cat_sed) = Some ex_cat_sed_ok"
    by code_simp+
  have b0: "fst (Start ex_env ex_cat_sed_ok (snd ex_echo_cat_sed)) = None"
    by code_simp
  have b4: "Start ex_env ex_cat_sed_ok (snd ex_echo_cat_sed) =
      (fst (Start ex_env ex_cat_sed_ok (snd ex_echo_cat_sed)),
       fst (snd (Start ex_env ex_cat_sed_ok (snd ex_echo_cat_sed))),
       snd (snd (Start ex_env ex_cat_sed_ok (snd ex_echo_cat_sed))))"
    by simp
  have b5: "unstarted ex_cat_sed_ok"
    by code_simp
  have paths: "map path_of (chain (fst ex_echo_cat_sed)) = [''/bin/echo'', ''/bin/cat'', ''/bin/sed'']"
    by code_simp
  have b6: "\<forall>b. Path b \<in> set (map path_of (chain (fst ex_echo_cat_sed))) \<longrightarrow>
              spawn ex_env b = None \<and> werr (await ex_env b) = None"
    unfolding paths by (auto simp: ex_env_def)
  have len: "length (chain (fst (snd (Wait ex_env (fst ex_echo_cat_sed) (snd ex_echo_cat_sed))))) = 3"
    by code_simp
  then have mem: "chain (fst (snd (Wait ex_env (fst ex_echo_cat_sed) (snd ex_echo_cat_sed)))) ! 2 \<in>
      set (chain (fst (snd (Wait ex_env (fst ex_echo_cat_sed) (snd ex_echo_cat_sed)))))"
    by simp
  show ?thesis
    using Wait_with_next_stage [OF a a4] a0 a5
      Wait_with_next_stage [OF b b4] b0 b5 b6 mem
    by blast
qed

section \<open>Lifecycle guards\<close>

text \<open>
  C2. \<^verbatim>\<open>Start\<close> on a descriptor that has a process handle returns
  \<^verbatim>\<open>exec: already started\<close> and leaves the descriptor and the world as they were;
  \<^verbatim>\<open>Wait\<close> on a descriptor without a process handle returns \<^verbatim>\<open>exec: not started\<close>, and
  on one that has a handle and exit information \<^verbatim>\<open>exec: Wait was already called\<close>, both
  without any change or event; the two conditions exclude each other and the two errors
  differ.
\<close>

theorem lifecycle_guards:
  "(Process (Cmd c) \<noteq> None \<longrightarrow>
      Start e c w = (Some (errorString ''exec: already started''), c, w)) \<and>
   (Process (Cmd c) = None \<longrightarrow>
      Wait e c w = (Some (errorString ''exec: not started''), c, w)) \<and>
   (Process (Cmd c) \<noteq> None \<and> ProcessState (Cmd c) \<noteq> None \<longrightarrow>
      Wait e c w = (Some (errorString ''exec: Wait was already called''), c, w)) \<and>
   errorString ''exec: not started'' \<noteq> errorString ''exec: Wait was already called''"
proof -
  have "Process (Cmd c) \<noteq> None \<Longrightarrow>
        Start e c w = (Some (errorString ''exec: already started''), c, w)"
    by (simp add: Start_def)
  moreover have "Process (Cmd c) = None \<Longrightarrow>
        Wait e c w = (Some (errorString ''exec: not started''), c, w)"
    by (subst Wait.simps) simp
  moreover have "Process (Cmd c) \<noteq> None \<and> ProcessState (Cmd c) \<noteq> None \<Longrightarrow>
        Wait e c w = (Some (errorString ''exec: Wait was already called''), c, w)"
    by (subst Wait.simps) auto
  ultimately show ?thesis by simp
qed

theorem lifecycle_guards_witness:
  "Process (Cmd ex_started) \<noteq> None \<and>
   Start ex_env ex_started ex_world =
     (Some (errorString ''exec: already started''), ex_started, ex_world) \<and>
   Process (Cmd ex_created) = None \<and>
   Wait ex_env ex_created ex_world =
     (Some (errorString ''exec: not started''), ex_created, ex_world) \<and>
   Process (Cmd ex_waited) \<noteq> None \<and> ProcessState (Cmd ex_waited) \<noteq> None \<and>
   Wait ex_env ex_waited ex_world =
     (Some (errorString ''exec: Wait was already called''), ex_waited, ex_world)"
proof -
  have a: "Process (Cmd ex_started) \<noteq> None"
    by (simp add: ex_started_def)
  have b: "Process (Cmd ex_created) = None"
    by (simp add: ex_created_def)
  have c: "Process (Cmd ex_waited) \<noteq> None \<and> ProcessState (Cmd ex_waited) \<noteq> None"
    by (simp add: ex_waited_def ex_started_def set_Cmd_def)
  show ?thesis
    using a b c
      lifecycle_guards [of ex_started ex_env ex_world]
      lifecycle_guards [of ex_created ex_env ex_world]
      lifecycle_guards [of ex_waited ex_env ex_world]
    by simp
qed

section \<open>Spans on the path where the next stage fails to start\<close>

text \<open>
  C3 at the failing input: in \<^verbatim>\<open>echo | bad\<close> the head is started under span 3 and the
  spawn of the second stage fails. \<^verbatim>\<open>Wait\<close> on the head returns that error after ending
  the span of the head twice, once before the \<^verbatim>\<open>return\<close> and once in the deferred
  function, which sets the exit code, the error and the status on the span that has already
  been ended; the span of the second stage is ended once.
\<close>

theorem span_ended_twice_when_next_fails_to_start:
  "Process (Cmd (fst ex_echo_bad)) \<noteq> None \<and>
   ProcessState (Cmd (fst ex_echo_bad)) = None \<and>
   SpanFromContext (ctx (fst ex_echo_bad)) = Span 3 \<and>
   ends (Span 3) (snd ex_echo_bad) = 0 \<and>
   fst (Wait ex_env (fst ex_echo_bad) (snd ex_echo_bad)) =
     Some (osError ''fork/exec /bin/bad: permission denied'') \<and>
   ends (Span 3) (snd (snd (Wait ex_env (fst ex_echo_bad) (snd ex_echo_bad)))) = 2 \<and>
   ends (Span 5) (snd (snd (Wait ex_env (fst ex_echo_bad) (snd ex_echo_bad)))) = 1 \<and>
   drop 8 (events (snd (snd (Wait ex_env (fst ex_echo_bad) (snd ex_echo_bad))))) =
     [SpanEnd (Span 3), SetAttributes (Span 3) (- 1),
      RecordError (Span 3) (osError ''fork/exec /bin/bad: permission denied''),
      SetStatus (Span 3) Err_code ''fork/exec /bin/bad: permission denied'',
      SpanEnd (Span 3)]"
  by code_simp

section \<open>The closer on the path where the next stage fails to start\<close>

text \<open>
  C4 at the failing input: in \<^verbatim>\<open>echo | bad\<close> the closer of the head is the write end of
  pipe 2 and the spawn of the second stage fails. \<^verbatim>\<open>Wait\<close> on the head returns that error
  before the closer is registered for release: the closer is never closed, and the head is
  never waited on. In \<^verbatim>\<open>false | cat | sed\<close>, where the second stage starts, the closer of
  the head is closed once.
\<close>

theorem closer_not_released_when_next_fails_to_start:
  "Process (Cmd (fst ex_echo_bad)) \<noteq> None \<and>
   ProcessState (Cmd (fst ex_echo_bad)) = None \<and>
   closer (fst ex_echo_bad) = PipeCloser 2 \<and>
   fst (Wait ex_env (fst ex_echo_bad) (snd ex_echo_bad)) =
     Some (osError ''fork/exec /bin/bad: permission denied'') \<and>
   closes (PipeCloser 2) (snd (snd (Wait ex_env (fst ex_echo_bad) (snd ex_echo_bad)))) = 0 \<and>
   procs (snd (snd (Wait ex_env (fst ex_echo_bad) (snd ex_echo_bad)))) =
     [Started ''/bin/echo'', Started ''/bin/bad''] \<and>
   closer (fst ex_false_cat_sed) = PipeCloser 3 \<and>
   closes (PipeCloser 3) (snd (snd (Wait ex_env (fst ex_false_cat_sed) (snd ex_false_cat_sed)))) = 1"
  by code_simp

section \<open>Construction with a name that does not resolve\<close>

lemma setupCmd_loud: "loud (snd (snd (setupCmd e c w))) = loud w"
proof (induction e c w rule: setupCmd.induct)
  case (1 e c w)
  show ?case
  proof (cases "Err (Cmd c) \<noteq> None")
    case True
    then show ?thesis
      by (subst setupCmd.simps) (simp add: loud_def emit_def)
  next
    case noerr: False
    show ?thesis
    proof (cases "Next c")
      case None
      with noerr show ?thesis
        by (subst setupCmd.simps) simp
    next
      case (Some n)
      show ?thesis
      proof (cases "Err (Cmd n) = None")
        case True
        have "loud (snd (snd (setupCmd e (snd (wire (fresh w) c n)) (w\<lparr>fresh := Suc (fresh w)\<rparr>)))) =
              loud (w\<lparr>fresh := Suc (fresh w)\<rparr>)"
          using "1.IH"(1) noerr Some True by simp
        with noerr Some True show ?thesis
          by (subst setupCmd.simps) (simp add: loud_def case_prod_beta)
      next
        case False
        have "loud (snd (snd (setupCmd e n w))) = loud w"
          using "1.IH"(2) noerr Some False by simp
        with noerr Some False show ?thesis
          by (subst setupCmd.simps) (auto simp: loud_def case_prod_beta)
      qed
    qed
  qed
qed

lemma construction_loud:
  "loud (snd (applyOption e opt c w)) = loud w"
  "loud (snd (applyOptions e opts c w)) = loud w"
  "loud (snd (CommandContext e cx name opts w)) = loud w"
proof (induction e opt c w and e opts c w and e cx name opts w
       rule: applyOption_applyOptions_CommandContext.induct)
  case (1 e name args c w)
  then show ?case
    by (cases "Next c") (simp_all add: applyOption.simps case_prod_beta)
next
  case (11 e opt opts c w)
  then show ?case
    by (simp add: applyOptions.simps case_prod_beta)
next
  case (12 e cx name opts w)
  have "loud (snd (applyOptions e opts
          (MkCmd ((exec_CommandContext e (Clean e name))\<lparr>Env := Environ e\<rparr>) None cx
             (Buffer (fresh w)) NopCloser NoopTracer NoOpLogger)
          (w\<lparr>fresh := Suc (fresh w)\<rparr>))) = loud w"
    using 12 by (simp add: loud_def)
  then show ?case
    by (simp add: CommandContext.simps Let_def case_prod_beta setupCmd_loud)
qed (simp_all add: applyOption.simps applyOptions.simps)

lemma applyOption_Err: "Err (Cmd (fst (applyOption e opt c w))) = Err (Cmd c)"
  by (cases opt; cases "Next c")
     (simp_all add: applyOption.simps case_prod_beta set_Next_def set_Cmd_def set_tracer_def
        set_logger_def)

lemma applyOptions_Err: "Err (Cmd (fst (applyOptions e opts c w))) = Err (Cmd c)"
proof (induction opts arbitrary: c w)
  case Nil
  show ?case by (simp add: applyOptions.simps)
next
  case (Cons opt opts)
  show ?case
    by (simp add: applyOptions.simps case_prod_beta Cons.IH applyOption_Err)
qed

lemma setupCmd_Err_head:
  "Err (Cmd c) = Some er \<Longrightarrow>
   setupCmd e c w =
     (Some er, c, emit [LogDebug (logger c) (ctx c) (Base e (Path (Cmd c)) @ '' not found'') []] w)"
  by (subst setupCmd.simps) simp

lemma exec_CommandContext_Err:
  "Base e name = name \<Longrightarrow> Err (exec_CommandContext e name) = snd (LookPath e name)"
  by (simp add: exec_CommandContext_def case_prod_beta)

lemma CommandContext_Err:
  assumes "Base e (Clean e name) = Clean e name" and "snd (LookPath e (Clean e name)) = Some er"
  shows "Err (Cmd (fst (CommandContext e cx name opts w))) = Some er"
proof -
  let ?c = "MkCmd ((exec_CommandContext e (Clean e name))\<lparr>Env := Environ e\<rparr>) None cx
              (Buffer (fresh w)) NopCloser NoopTracer NoOpLogger"
  have "Err (Cmd ?c) = Some er"
    using assms by (simp add: exec_CommandContext_Err)
  then have "Err (Cmd (fst (applyOptions e opts ?c (w\<lparr>fresh := Suc (fresh w)\<rparr>)))) = Some er"
    by (simp add: applyOptions_Err)
  then show ?thesis
    by (simp add: CommandContext.simps Let_def case_prod_beta setupCmd_Err_head set_Cmd_def)
qed

lemma String_unresolved:
  "Err (Cmd c) \<noteq> None \<Longrightarrow>
   String c = Join (Args (Cmd c)) '' '' @ (case Next c of None \<Rightarrow> [] | Some n \<Rightarrow> '' | '' @ String n)"
  by (cases c; cases "Next c") (simp_all add: exec_String_def)

text \<open>
  C5. When the search for the name fails, \<^verbatim>\<open>CommandContext\<close> still returns a
  descriptor, whatever the options: the error of the search is its \<open>Err\<close>, its command
  line renders as the requested name and arguments, and \<^verbatim>\<open>RunWithContext\<close> returns this
  descriptor with that error (the not-found sentinel when the search gave it) after
  events of the logger only: no span is started and no process is spawned.
\<close>

theorem unresolved_name_is_deferred:
  assumes "Base e (Clean e name) = Clean e name"
    and "snd (LookPath e (Clean e name)) = Some er"
  shows "Err (Cmd (fst (CommandContext e cx name opts w))) = Some er \<and>
         String (fst (CommandContext e cx name opts w)) =
           Join (Args (Cmd (fst (CommandContext e cx name opts w)))) '' '' @
           (case Next (fst (CommandContext e cx name opts w)) of
              None \<Rightarrow> []
            | Some n \<Rightarrow> '' | '' @ String n) \<and>
         fst (RunWithContext e cx name opts w) = fst (CommandContext e cx name opts w) \<and>
         fst (snd (RunWithContext e cx name opts w)) = Some er \<and>
         (Is er ErrNotFound \<longrightarrow>
            (\<exists>x. fst (snd (RunWithContext e cx name opts w)) = Some x \<and> Is x ErrNotFound)) \<and>
         loud (snd (snd (RunWithContext e cx name opts w))) = loud w"
proof -
  have err: "Err (Cmd (fst (CommandContext e cx name opts w))) = Some er"
    using assms by (rule CommandContext_Err)
  then have str: "String (fst (CommandContext e cx name opts w)) =
           Join (Args (Cmd (fst (CommandContext e cx name opts w)))) '' '' @
           (case Next (fst (CommandContext e cx name opts w)) of
              None \<Rightarrow> []
            | Some n \<Rightarrow> '' | '' @ String n)"
    by (simp add: String_unresolved)
  have run: "RunWithContext e cx name opts w =
           (fst (CommandContext e cx name opts w), Some er,
            emit [LogDebug (logger (fst (CommandContext e cx name opts w))) cx (Error er) []]
              (snd (CommandContext e cx name opts w)))"
    using err by (simp add: RunWithContext_def case_prod_beta)
  have quiet: "loud (snd (snd (RunWithContext e cx name opts w))) = loud w"
    using construction_loud(3) [of e cx name opts w]
    by (simp add: run) (simp add: loud_def emit_def)
  show ?thesis
    using err str quiet by (simp add: run)
qed

theorem unresolved_name_is_deferred_witness:
  "Base ex_env (Clean ex_env ''not_found'') = Clean ex_env ''not_found'' \<and>
   snd (LookPath ex_env (Clean ex_env ''not_found'')) = Some (execError ''not_found'' ErrNotFound) \<and>
   Is (execError ''not_found'' ErrNotFound) ErrNotFound \<and>
   Err (Cmd (fst (CommandContext ex_env Background ''not_found'' [WithArgs [''hello world'']] ex_world))) =
     Some (execError ''not_found'' ErrNotFound) \<and>
   fst (snd (RunWithContext ex_env Background ''not_found'' [WithArgs [''hello world'']] ex_world)) =
     Some (execError ''not_found'' ErrNotFound) \<and>
   loud (snd (snd (RunWithContext ex_env Background ''not_found'' [WithArgs [''hello world'']] ex_world))) = []"
proof -
  have a: "Base ex_env (Clean ex_env ''not_found'') = Clean ex_env ''not_found''"
    by (simp add: ex_env_def)
  have b: "snd (LookPath ex_env (Clean ex_env ''not_found'')) =
             Some (execError ''not_found'' ErrNotFound)"
    by (simp add: ex_env_def)
  have c: "Is (execError ''not_found'' ErrNotFound) ErrNotFound"
    by simp
  have d: "loud ex_world = []"
    by (simp add: loud_def ex_world_def)
  show ?thesis
    using unresolved_name_is_deferred [OF a b, of Background "[WithArgs [''hello world'']]" ex_world]
      a b c d
    by simp
qed

section \<open>The wiring pass\<close>

text \<open>
  C6 as stated fails: in \<^verbatim>\<open>echo | not_found | cat\<close>, built with a tracer and a logger of
  the caller, the second stage carries a construction error, and after the wiring pass
  neither it nor the stage after it has the tracer or the logger of the head.
\<close>

theorem wiring_shares_counterexample:
  "map config (chain (fst (CommandContext ex_env Background ''echo''
      [WithTracer (UserTracer 1), WithLogger (UserLogger 2), Pipe ''not_found'' [], Pipe ''cat'' []]
      ex_world))) =
     [(UserTracer 1, UserLogger 2), (NoopTracer, NoOpLogger), (NoopTracer, NoOpLogger)] \<and>
   map resolved (chain (fst (CommandContext ex_env Background ''echo''
      [WithTracer (UserTracer 1), WithLogger (UserLogger 2), Pipe ''not_found'' [], Pipe ''cat'' []]
      ex_world))) = [False, False, True]"
  by code_simp

text \<open>
  C6, amended. After the wiring pass, the stages before the first stage that carries a
  construction error have the tracer and the logger of the head; the pass stops at that
  stage, which keeps its own tracer and logger, as does every stage after it. The pass
  changes no construction error.
\<close>

theorem wiring_shares_up_to_first_error:
  "tracer (fst (snd (setupCmd e c w))) = tracer c \<and>
   logger (fst (snd (setupCmd e c w))) = logger c \<and>
   map resolved (chain (fst (snd (setupCmd e c w)))) = map resolved (chain c) \<and>
   (\<forall>n \<in> set (takeWhile resolved (chain (fst (snd (setupCmd e c w))))). shares c n) \<and>
   map config (dropWhile resolved (chain (fst (snd (setupCmd e c w))))) =
     map config (dropWhile resolved (chain c))"
proof (induction e c w rule: setupCmd.induct)
  case (1 e c w)
  show ?case
  proof (cases "Err (Cmd c) \<noteq> None")
    case True
    then have "setupCmd e c w =
        (Err (Cmd c), c,
         emit [LogDebug (logger c) (ctx c) (Base e (Path (Cmd c)) @ '' not found'') []] w)"
      by (subst setupCmd.simps) simp
    moreover have "takeWhile resolved (chain c) = []"
      using True by (subst chain_unfold) (simp add: resolved_def)
    ultimately show ?thesis by simp
  next
    case noerr: False
    show ?thesis
    proof (cases "Next c")
      case None
      then have "setupCmd e c w = (None, c, w)"
        using noerr by (subst setupCmd.simps) simp
      moreover have "chain c = [c]"
        using None by (subst chain_unfold) simp
      ultimately show ?thesis by (simp add: shares_def)
    next
      case (Some n)
      show ?thesis
      proof (cases "Err (Cmd n) = None")
        case True
        let ?n1 = "snd (wire (fresh w) c n)"
        let ?c1 = "fst (wire (fresh w) c n)"
        let ?r = "setupCmd e ?n1 (w\<lparr>fresh := Suc (fresh w)\<rparr>)"
        let ?n2 = "fst (snd ?r)"
        have res: "fst (snd (setupCmd e c w)) = set_Next (Some ?n2) ?c1"
          using noerr Some True by (subst setupCmd.simps) (simp add: case_prod_beta)
        have IH: "tracer ?n2 = tracer ?n1 \<and> logger ?n2 = logger ?n1 \<and>
            map resolved (chain ?n2) = map resolved (chain ?n1) \<and>
            (\<forall>m \<in> set (takeWhile resolved (chain ?n2)). shares ?n1 m) \<and>
            map config (dropWhile resolved (chain ?n2)) = map config (dropWhile resolved (chain ?n1))"
          using "1.IH"(1) noerr Some True by simp
        have head: "resolved (set_Next (Some ?n2) ?c1)" "resolved c" "resolved ?n1" "resolved n"
          using noerr True by (simp_all add: resolved_def set_Next_def wire_fst wire_snd)
        have c_chain: "chain c = c # chain n"
          using Some by (subst chain_unfold) simp
        have n1_chain: "chain ?n1 = ?n1 # (case Next n of None \<Rightarrow> [] | Some m \<Rightarrow> chain m)"
          by (subst chain_unfold) (simp add: wire_snd)
        have n_chain: "chain n = n # (case Next n of None \<Rightarrow> [] | Some m \<Rightarrow> chain m)"
          by (subst chain_unfold) simp
        have same_res: "map resolved (chain ?n1) = map resolved (chain n)"
          by (subst n1_chain, subst n_chain) (simp add: head)
        have same_drop: "dropWhile resolved (chain ?n1) = dropWhile resolved (chain n)"
          by (subst n1_chain, subst n_chain) (simp add: head)
        have sh: "shares c m" if "shares ?n1 m" for m
          using that by (simp add: shares_def wire_snd)
        show ?thesis
          unfolding res chain_set_Next_Some c_chain
          using IH head same_res same_drop sh
          by (auto simp: set_Next_def wire_fst shares_def)
      next
        case False
        have inner: "setupCmd e n w =
            (Err (Cmd n), n,
             emit [LogDebug (logger n) (ctx n) (Base e (Path (Cmd n)) @ '' not found'') []] w)"
          using False by (subst setupCmd.simps) simp
        have res: "fst (snd (setupCmd e c w)) = set_Next (Some n) c"
          using noerr Some False by (subst setupCmd.simps) (auto simp: case_prod_beta inner)
        have c_chain: "chain c = c # chain n"
          using Some by (subst chain_unfold) simp
        have stop: "takeWhile resolved (chain n) = []"
          using False by (subst chain_unfold) (simp add: resolved_def)
        have head: "resolved (set_Next (Some n) c)" "resolved c"
          using noerr by (simp_all add: resolved_def set_Next_def)
        show ?thesis
          unfolding res chain_set_Next_Some c_chain
          using head stop
          by (auto simp: set_Next_def shares_def config_def)
      qed
    qed
  qed
qed

theorem wiring_shares_up_to_first_error_witness:
  "chain (fst (snd (setupCmd ex_env ex_unwired ex_world))) ! 1 \<in>
     set (takeWhile resolved (chain (fst (snd (setupCmd ex_env ex_unwired ex_world))))) \<and>
   shares ex_unwired (chain (fst (snd (setupCmd ex_env ex_unwired ex_world))) ! 1) \<and>
   map config (chain (fst (snd (setupCmd ex_env ex_unwired ex_world)))) =
     [(UserTracer 1, UserLogger 2), (UserTracer 1, UserLogger 2),
      (NoopTracer, NoOpLogger), (NoopTracer, NoOpLogger)]"
proof -
  have m: "chain (fst (snd (setupCmd ex_env ex_unwired ex_world))) ! 1 \<in>
     set (takeWhile resolved (chain (fst (snd (setupCmd ex_env ex_unwired ex_world)))))"
    by code_simp
  have v: "map config (chain (fst (snd (setupCmd ex_env ex_unwired ex_world)))) =
     [(UserTracer 1, UserLogger 2), (UserTracer 1, UserLogger 2),
      (NoopTracer, NoOpLogger), (NoopTracer, NoOpLogger)]"
    by code_simp
  show ?thesis
    using wiring_shares_up_to_first_error [of ex_env ex_unwired ex_world] m v
    by blast
qed

section \<open>The arguments that reach the span\<close>

text \<open>
  C7 as stated fails: the package has no option that takes a transform of the arguments, and
  \<^verbatim>\<open>Start\<close> hands \<^verbatim>\<open>c.Args\<close> to the tracer as they are. Running \<^verbatim>\<open>echo\<close> with the
  argument \<^verbatim>\<open>--password=hunter2\<close> tags the span with that argument, not with what a
  redaction of the list gives.
\<close>

theorem redaction_counterexample:
  "span_args (snd (snd (Run_name ex_env ''echo'' [WithArgs [''--password=hunter2'']] ex_world))) =
     [[''/bin/echo'', ''--password=hunter2'']] \<and>
   ex_redact [''/bin/echo'', ''--password=hunter2''] = [''/bin/echo'', ''***''] \<and>
   span_args (snd (snd (Run_name ex_env ''echo'' [WithArgs [''--password=hunter2'']] ex_world))) \<noteq>
     [ex_redact [''/bin/echo'', ''--password=hunter2'']] \<and>
   spawned_args (snd (snd (Run_name ex_env ''echo'' [WithArgs [''--password=hunter2'']] ex_world))) =
     [[''/bin/echo'', ''--password=hunter2'']]"
  by code_simp

text \<open>
  C7, amended. The attribute \<^verbatim>\<open>exec.args\<close> of the span that \<^verbatim>\<open>Start\<close> opens is the
  argument list of the descriptor, unchanged, and the command handed to the spawn primitive
  right after carries the same list; \<^verbatim>\<open>Start\<close> leaves the argument list of the descriptor
  as it was.
\<close>

theorem span_tagged_with_spawned_args:
  assumes "Process (Cmd c) = None" and "Err (Cmd c) = None"
  shows "\<exists>b rest.
           events (snd (snd (Start e c w))) =
             events w @
               SpanStart (tracer c) (fresh w) (ctx c) ''exec:run'' (Args (Cmd c)) #
               ProcStart b # rest \<and>
           Args b = Args (Cmd c) \<and>
           Args (Cmd (fst (snd (Start e c w)))) = Args (Cmd c)"
  using assms
  by (auto simp: Start_def tracer_Start_def exec_Start_def emit_def Let_def
           split: option.splits)

theorem span_tagged_with_spawned_args_witness:
  "Process (Cmd ex_created) = None \<and> Err (Cmd ex_created) = None \<and>
   (\<exists>b rest.
      events (snd (snd (Start ex_env ex_created ex_world))) =
        SpanStart NoopTracer 0 Background ''exec:run'' [''/bin/echo'', ''hello world''] #
        ProcStart b # rest \<and>
      Args b = [''/bin/echo'', ''hello world''])"
proof -
  have p: "Process (Cmd ex_created) = None"
    by (simp add: ex_created_def)
  have q: "Err (Cmd ex_created) = None"
    by (simp add: ex_created_def)
  have vals: "events ex_world = [] \<and> fresh ex_world = 0 \<and> tracer ex_created = NoopTracer \<and>
              ctx ex_created = Background \<and> Args (Cmd ex_created) = [''/bin/echo'', ''hello world'']"
    by (simp add: ex_world_def ex_created_def)
  show ?thesis
    using span_tagged_with_spawned_args [OF p q, of ex_env ex_world] p q vals
    by auto
qed

section \<open>Appending stages\<close>

lemma setupCmd_chain_length:
  "length (chain (fst (snd (setupCmd e c w)))) = length (chain c)"
proof (induction e c w rule: setupCmd.induct)
  case (1 e c w)
  show ?case
  proof (cases "Err (Cmd c) \<noteq> None")
    case True
    then show ?thesis by (subst setupCmd.simps) simp
  next
    case noerr: False
    show ?thesis
    proof (cases "Next c")
      case None
      with noerr show ?thesis by (subst setupCmd.simps) simp
    next
      case (Some n)
      have c_chain: "chain c = c # chain n"
        using Some by (subst chain_unfold) simp
      show ?thesis
      proof (cases "Err (Cmd n) = None")
        case True
        have "length (chain (fst (snd (setupCmd e (snd (wire (fresh w) c n))
                 (w\<lparr>fresh := Suc (fresh w)\<rparr>))))) = length (chain n)"
          using "1.IH"(1) noerr Some True by (simp add: chain_length_wire)
        then show ?thesis
          using noerr Some True
          by (subst setupCmd.simps) (simp add: case_prod_beta chain_set_Next_Some c_chain)
      next
        case False
        have "length (chain (fst (snd (setupCmd e n w)))) = length (chain n)"
          using "1.IH"(2) noerr Some False by simp
        then show ?thesis
          using noerr Some False
          by (subst setupCmd.simps) (auto simp: case_prod_beta chain_set_Next_Some c_chain)
      qed
    qed
  qed
qed

lemma setupCmd_tail:
  "Next c = None \<Longrightarrow> fst (snd (setupCmd e c w)) = c"
  by (subst setupCmd.simps) simp

lemma new_stage:
  "ctx (fst (CommandContext e cx name [WithArgs args] w)) = cx \<and>
   Next (fst (CommandContext e cx name [WithArgs args] w)) = None"
  by (simp add: CommandContext.simps applyOptions.simps applyOption.simps Let_def case_prod_beta
        setupCmd_tail setters)

lemma Pipe_on_tail:
  "Next c = None \<Longrightarrow>
   fst (applyOption e (Pipe name args) c w) =
     set_Next (Some (fst (CommandContext e (ctx c) name [WithArgs args] w))) c"
  by (simp add: applyOption.simps case_prod_beta)

lemma Pipe_on_inner:
  "Next c = Some n \<Longrightarrow>
   fst (applyOption e (Pipe name args) c w) =
     set_Next (Some (fst (applyOption e (Pipe name args) n w))) c"
  by (simp add: applyOption.simps case_prod_beta)

lemma stage_set_Next: "stage (set_Next nx c) = stage c"
  by (simp add: stage_def set_Next_def)

lemma Pipe_appends:
  "\<exists>n. map stage (chain (fst (applyOption e (Pipe name args) c w))) = map stage (chain c) @ [stage n] \<and>
       ctx n = ctx (last (chain c)) \<and> Next n = None"
proof (induction "length (chain c)" arbitrary: c w rule: less_induct)
  case less
  show ?case
  proof (cases "Next c")
    case None
    have "chain c = [c]"
      using None by (rule chain_tail)
    then show ?thesis
      using None new_stage [of e "ctx c" name args w]
      by (auto simp: Pipe_on_tail chain_set_Next_Some stage_set_Next chain_tail
            intro!: exI [of _ "fst (CommandContext e (ctx c) name [WithArgs args] w)"])
  next
    case (Some m)
    have c_chain: "chain c = c # chain m"
      using Some by (subst chain_unfold) simp
    have "length (chain m) < length (chain c)"
      using Some by (rule chain_length_Next)
    from less [OF this, of w] obtain n where
      n: "map stage (chain (fst (applyOption e (Pipe name args) m w))) = map stage (chain m) @ [stage n]"
         "ctx n = ctx (last (chain m))" "Next n = None"
      by blast
    have ne: "chain m \<noteq> []"
      by (subst chain_unfold) simp
    show ?thesis
      using n ne Some
      by (auto simp: Pipe_on_inner chain_set_Next_Some stage_set_Next c_chain)
  qed
qed

lemma Pipe_chain_length:
  "length (chain (fst (applyOption e (Pipe name args) c w))) = Suc (length (chain c))"
proof -
  obtain n where "map stage (chain (fst (applyOption e (Pipe name args) c w))) = map stage (chain c) @ [stage n]"
    using Pipe_appends by blast
  then have "length (map stage (chain (fst (applyOption e (Pipe name args) c w)))) =
             length (map stage (chain c) @ [stage n])"
    by simp
  then show ?thesis by simp
qed

lemma applyOption_chain_length:
  "length (chain (fst (applyOption e opt c w))) =
     length (chain c) + (if is_Pipe opt then 1 else 0)"
proof (cases opt)
  case (Pipe name args)
  then show ?thesis by (simp add: Pipe_chain_length)
qed (simp_all add: applyOption.simps setters chain_length_MkCmd, (cases c; cases "Next c"; simp)+)

lemma applyOptions_chain_length:
  "length (chain (fst (applyOptions e opts c w))) = length (chain c) + length (filter is_Pipe opts)"
proof (induction opts arbitrary: c w)
  case Nil
  show ?case by (simp add: applyOptions.simps)
next
  case (Cons opt opts)
  show ?case
    by (simp add: applyOptions.simps case_prod_beta Cons.IH applyOption_chain_length)
qed

lemma CommandContext_chain_length:
  "length (chain (fst (CommandContext e cx name opts w))) = Suc (length (filter is_Pipe opts))"
  by (simp add: CommandContext.simps Let_def case_prod_beta chain_length_set_Cmd
        setupCmd_chain_length applyOptions_chain_length)

text \<open>
  C8. \<^verbatim>\<open>Pipe\<close> applied to a descriptor without a next stage sets its next stage to a new
  descriptor, built with the context of the descriptor and without a next stage of its own;
  applied to a descriptor with a next stage it is applied to that stage instead. Either way
  the stages of the chain stay as they are, in their order, and one stage is added at the
  end with the context of the former tail. So a descriptor built with options of which
  \<open>n\<close> are \<^verbatim>\<open>Pipe\<close> options is a chain of \<open>n + 1\<close> stages.
\<close>

theorem Pipe_extends_chain:
  "(case Next c of
      None \<Rightarrow>
        fst (applyOption e (Pipe name args) c w) =
          set_Next (Some (fst (CommandContext e (ctx c) name [WithArgs args] w))) c \<and>
        ctx (fst (CommandContext e (ctx c) name [WithArgs args] w)) = ctx c \<and>
        Next (fst (CommandContext e (ctx c) name [WithArgs args] w)) = None
    | Some m \<Rightarrow>
        fst (applyOption e (Pipe name args) c w) =
          set_Next (Some (fst (applyOption e (Pipe name args) m w))) c) \<and>
   (\<exists>n. map stage (chain (fst (applyOption e (Pipe name args) c w))) =
          map stage (chain c) @ [stage n] \<and>
        ctx n = ctx (last (chain c)) \<and> Next n = None) \<and>
   length (chain (fst (CommandContext e cx name' opts w'))) = Suc (length (filter is_Pipe opts))"
proof -
  have step: "case Next c of
      None \<Rightarrow>
        fst (applyOption e (Pipe name args) c w) =
          set_Next (Some (fst (CommandContext e (ctx c) name [WithArgs args] w))) c \<and>
        ctx (fst (CommandContext e (ctx c) name [WithArgs args] w)) = ctx c \<and>
        Next (fst (CommandContext e (ctx c) name [WithArgs args] w)) = None
    | Some m \<Rightarrow>
        fst (applyOption e (Pipe name args) c w) =
          set_Next (Some (fst (applyOption e (Pipe name args) m w))) c"
    by (cases "Next c") (simp_all add: Pipe_on_tail Pipe_on_inner new_stage)
  show ?thesis
    using step Pipe_appends [of e name args c w] CommandContext_chain_length [of e cx name' opts w']
    by blast
qed

theorem Pipe_extends_chain_witness:
  "Next ex_created = None \<and>
   Next (fst (applyOption ex_env (Pipe ''grep'' [''b'']) ex_created ex_world)) =
     Some (fst (CommandContext ex_env Background ''grep'' [WithArgs [''b'']] ex_world)) \<and>
   length (chain (fst (CommandContext ex_env Background ''echo''
      [WithArgs [''abc''], Pipe ''grep'' [''b''], WithEnv ''K'' ''v'', Pipe ''sed'' []] ex_world))) = 3 \<and>
   map (Args \<circ> Cmd) (chain (fst (CommandContext ex_env Background ''echo''
      [WithArgs [''abc''], Pipe ''grep'' [''b''], WithEnv ''K'' ''v'', Pipe ''sed'' []] ex_world))) =
     [[''/bin/echo'', ''abc''], [''/bin/grep'', ''b''], [''/bin/sed'']]"
proof -
  have a: "Next ex_created = None" "ctx ex_created = Background"
    by (simp_all add: ex_created_def)
  have b: "map (Args \<circ> Cmd) (chain (fst (CommandContext ex_env Background ''echo''
      [WithArgs [''abc''], Pipe ''grep'' [''b''], WithEnv ''K'' ''v'', Pipe ''sed'' []] ex_world))) =
     [[''/bin/echo'', ''abc''], [''/bin/grep'', ''b''], [''/bin/sed'']]"
    by code_simp
  show ?thesis
    using Pipe_extends_chain [where c = ex_created and e = ex_env and name = "''grep''"
        and args = "[''b'']" and w = ex_world and cx = Background and name' = "''echo''"
        and opts = "[WithArgs [''abc''], Pipe ''grep'' [''b''], WithEnv ''K'' ''v'', Pipe ''sed'' []]"
        and w' = ex_world]
      a b
    by (simp add: set_Next_def)
qed

section \<open>When a downstream stage is started\<close>

text \<open>
  C9 as stated fails: in \<^verbatim>\<open>false | cat\<close> the second stage is spawned before the
  head is waited on, and the wait of the head then fails with exit code 1, so the second
  stage has been started although the stage before it never reported success.
\<close>

theorem lazy_start_counterexample:
  "fst (snd (Run_name ex_env ''false'' [Pipe ''cat'' []] ex_world)) = Some (ExitError 1) \<and>
   procs (snd (snd (Run_name ex_env ''false'' [Pipe ''cat'' []] ex_world))) =
     [Started ''/bin/false'', Started ''/bin/cat'', Waited ''/bin/false'']"
  by code_simp

text \<open>
  C9, amended. \<^verbatim>\<open>Wait\<close> on a started stage whose next stage is resolved and not
  yet started spawns the next stage first; its own underlying wait comes after, and only
  if that spawn succeeded; when its own underlying wait fails, nothing is spawned or
  waited on after it.
\<close>

theorem next_stage_started_before_own_wait:
  assumes "Process (Cmd c) \<noteq> None" and "ProcessState (Cmd c) = None" and "Next c = Some n"
    and "Process (Cmd n) = None" and "Err (Cmd n) = None"
  shows "\<exists>rest.
           procs (snd (snd (Wait e c w))) = procs w @ Started (Path (Cmd n)) # rest \<and>
           (fst (Start e n w) \<noteq> None \<longrightarrow> rest = []) \<and>
           (fst (Start e n w) = None \<longrightarrow>
              (\<exists>rest'. rest = Waited (Path (Cmd c)) # rest' \<and>
                       (werr (await e (Cmd c)) \<noteq> None \<longrightarrow> rest' = [])))"
proof -
  note g = assms(1,2)
  obtain serr n1 w1 where st: "Start e n w = (serr, n1, w1)"
    by (cases "Start e n w") auto
  have p1: "procs w1 = procs w @ [Started (Path (Cmd n))]"
    using procs_Start [OF assms(4,5), of e w] st by simp
  show ?thesis
  proof (cases serr)
    case (Some er)
    then show ?thesis
      using st p1 by (simp add: Wait_next_not_started [OF g assms(3)] procs_emit)
  next
    case None
    with st have st': "Start e n w = (None, n1, w1)" by simp
    show ?thesis
    proof (cases "werr (await e (Cmd c))")
      case (Some er)
      show ?thesis
        using st' p1 Some
        by (simp add: Wait_own_failed [OF g assms(3) st' Some] procs_emit)
    next
      case None
      obtain evs where
        "events (snd (snd (Wait e n1 (emit [ProcWait (Cmd c), Close (closer c)] w1)))) =
           events (emit [ProcWait (Cmd c), Close (closer c)] w1) @ evs"
        using events_Wait by blast
      then have "procs (snd (snd (Wait e n1 (emit [ProcWait (Cmd c), Close (closer c)] w1)))) =
           procs w1 @ Waited (Path (Cmd c)) # concat (map proc_of evs)"
        by (simp add: procs_def)
      then show ?thesis
        using st' p1 None
        by (simp add: Wait_own_succeeded [OF g assms(3) st' None])
    qed
  qed
qed

theorem next_stage_started_before_own_wait_witness:
  "procs (snd (snd (Wait ex_env (fst ex_echo_bad) (snd ex_echo_bad)))) =
     [Started ''/bin/echo'', Started ''/bin/bad''] \<and>
   procs (snd (snd (Wait ex_env (fst ex_false_cat_sed) (snd ex_false_cat_sed)))) =
     [Started ''/bin/false'', Started ''/bin/cat'', Waited ''/bin/false'']"
proof -
  have a: "Process (Cmd (fst ex_echo_bad)) \<noteq> None" "ProcessState (Cmd (fst ex_echo_bad)) = None"
    "Next (fst ex_echo_bad) = Some ex_bad_stage" "Process (Cmd ex_bad_stage) = None"
    "Err (Cmd ex_bad_stage) = None"
    by code_simp+
  have a': "procs (snd ex_echo_bad) = [Started ''/bin/echo'']" "Path (Cmd ex_bad_stage) = ''/bin/bad''"
    "fst (Start ex_env ex_bad_stage (snd ex_echo_bad)) \<noteq> None"
    by code_simp+
  have b: "Process (Cmd (fst ex_false_cat_sed)) \<noteq> None" "ProcessState (Cmd (fst ex_false_cat_sed)) = None"
    "Next (fst ex_false_cat_sed) = Some ex_cat_sed" "Process (Cmd ex_cat_sed) = None"
    "Err (Cmd ex_cat_sed) = None"
    by code_simp+
  have b': "procs (snd ex_false_cat_sed) = [Started ''/bin/false'']" "Path (Cmd ex_cat_sed) = ''/bin/cat''"
    "fst (Start ex_env ex_cat_sed (snd ex_false_cat_sed)) = None"
    "Path (Cmd (fst ex_false_cat_sed)) = ''/bin/false''"
    "werr (await ex_env (Cmd (fst ex_false_cat_sed))) \<noteq> None"
    by code_simp+
  show ?thesis
    using next_stage_started_before_own_wait [OF a, of ex_env "snd ex_echo_bad"]
      next_stage_started_before_own_wait [OF b, of ex_env "snd ex_false_cat_sed"]
      a' b'
    by auto
qed

section \<open>A failed spawn leaves the descriptor changed\<close>

lemma Start_unstarted_fields:
  assumes "Process (Cmd c) = None" and "Start e c w = (r, c', w')"
  shows "Env (Cmd c') =
           Env (Cmd c) @ [''TRACE_ID='' @ TraceID e (fresh w), ''SPAN_ID='' @ SpanID e (fresh w)]"
    and "Stderr (Cmd c') =
           Some (case Stderr (Cmd c) of
                   None \<Rightarrow> stdErr c
                 | Some old \<Rightarrow> MultiWriter [stdErr c, old])"
    and "ctx c' = ContextWithSpan (fresh w) (ctx c)"
    and "stdErr c' = stdErr c"
    and "fresh w < fresh w'"
  using assms
  by (auto simp: Start_def tracer_Start_def Let_def emit_def exec_Start_def
           split: prod.splits option.splits if_splits)

lemma Start_spawn_failed:
  assumes "Process (Cmd c) = None" and "Err (Cmd c) = None"
    and "spawn e (staged e c w) = Some er"
  shows "fst (Start e c w) = Some er"
    and "Cmd (fst (snd (Start e c w))) = staged e c w"
    and "fresh (snd (snd (Start e c w))) = Suc (fresh w)"
  using assms
  by (simp_all add: Start_def tracer_Start_def Let_def emit_def exec_Start_def staged_def)

text \<open>
  C10. When \<^verbatim>\<open>Start\<close> passes the already-started guard and the spawn primitive fails on
  the command handed to it, \<^verbatim>\<open>Start\<close> returns the error of the spawn, and the descriptor
  keeps the two trace entries at the end of its environment, the stderr sink that writes
  into the private buffer, and the context of the new span. It still has no process handle,
  so a second \<^verbatim>\<open>Start\<close>, whatever its outcome, appends a second pair of entries and wraps
  the sink once more. A \<^verbatim>\<open>Start\<close> that returns an error and leaves the descriptor and the
  world as they were is the already-started one.
\<close>

theorem Start_spawn_failure_mutates:
  assumes "Process (Cmd c) = None" and "Err (Cmd c) = None"
    and "spawn e (staged e c w) = Some er"
    and "Start e c w = (r, c', w')"
    and "Start e c' w' = (r2, c'', w'')"
  shows "r = Some er \<and>
         Cmd c' = staged e c w \<and>
         Env (Cmd c') =
           Env (Cmd c) @ [''TRACE_ID='' @ TraceID e (fresh w), ''SPAN_ID='' @ SpanID e (fresh w)] \<and>
         Stderr (Cmd c') =
           Some (case Stderr (Cmd c) of
                   None \<Rightarrow> stdErr c
                 | Some old \<Rightarrow> MultiWriter [stdErr c, old]) \<and>
         ctx c' = ContextWithSpan (fresh w) (ctx c) \<and>
         Process (Cmd c') = None \<and>
         c' \<noteq> c \<and> w' \<noteq> w \<and>
         Env (Cmd c'') =
           Env (Cmd c) @ [''TRACE_ID='' @ TraceID e (fresh w), ''SPAN_ID='' @ SpanID e (fresh w),
                          ''TRACE_ID='' @ TraceID e (Suc (fresh w)),
                          ''SPAN_ID='' @ SpanID e (Suc (fresh w))] \<and>
         Stderr (Cmd c'') =
           Some (MultiWriter [stdErr c,
                   case Stderr (Cmd c) of
                     None \<Rightarrow> stdErr c
                   | Some old \<Rightarrow> MultiWriter [stdErr c, old]]) \<and>
         ctx c'' = ContextWithSpan (Suc (fresh w)) (ContextWithSpan (fresh w) (ctx c)) \<and>
         (\<forall>c0 w0 er0. Start e c0 w0 = (Some er0, c0, w0) \<longrightarrow> Process (Cmd c0) \<noteq> None)"
proof -
  note failed = Start_spawn_failed [OF assms(1,2,3)]
  have r: "r = Some er"
    using failed(1) assms(4) by simp
  have staged': "Cmd c' = staged e c w"
    using failed(2) assms(4) by simp
  have fresh': "fresh w' = Suc (fresh w)"
    using failed(3) assms(4) by simp
  note first = Start_unstarted_fields [OF assms(1) assms(4)]
  have handle: "Process (Cmd c') = None"
    using staged' assms(1) by (simp add: staged_def)
  note second = Start_unstarted_fields [OF handle assms(5)]
  have env2: "Env (Cmd c'') =
           Env (Cmd c) @ [''TRACE_ID='' @ TraceID e (fresh w), ''SPAN_ID='' @ SpanID e (fresh w),
                          ''TRACE_ID='' @ TraceID e (Suc (fresh w)),
                          ''SPAN_ID='' @ SpanID e (Suc (fresh w))]"
    using second(1) first(1) fresh' by simp
  have err2: "Stderr (Cmd c'') =
           Some (MultiWriter [stdErr c,
                   case Stderr (Cmd c) of
                     None \<Rightarrow> stdErr c
                   | Some old \<Rightarrow> MultiWriter [stdErr c, old]])"
    using second(2) first(2) first(4) by simp
  have ctx2: "ctx c'' = ContextWithSpan (Suc (fresh w)) (ContextWithSpan (fresh w) (ctx c))"
    using second(3) first(3) fresh' by simp
  have "Env (Cmd c') \<noteq> Env (Cmd c)"
    using first(1) by simp
  then have changed: "c' \<noteq> c"
    by auto
  have "fresh w' \<noteq> fresh w"
    using first(5) by simp
  then have changed_w: "w' \<noteq> w"
    by auto
  have only_guard: "Process (Cmd c0) \<noteq> None" if "Start e c0 w0 = (Some er0, c0, w0)" for c0 w0 er0
  proof
    assume "Process (Cmd c0) = None"
    from Start_unstarted_fields(5) [OF this that] show False by simp
  qed
  show ?thesis
    using r staged' first(1) first(2) first(3) handle changed changed_w env2 err2 ctx2 only_guard
    by blast
qed

theorem Start_spawn_failure_mutates_witness:
  "Process (Cmd ex_bad) = None \<and> Err (Cmd ex_bad) = None \<and>
   spawn ex_flaky (staged ex_flaky ex_bad ex_world) =
     Some (osError ''fork/exec: resource temporarily unavailable'') \<and>
   fst (Start ex_flaky ex_bad ex_world) =
     Some (osError ''fork/exec: resource temporarily unavailable'') \<and>
   Env (Cmd (fst ex_retry)) = [''HOME=/root'', ''TRACE_ID=t0'', ''SPAN_ID=s0''] \<and>
   Stderr (Cmd (fst ex_retry)) = Some (MultiWriter [Buffer 0, UserWriter 7]) \<and>
   ctx (fst ex_retry) = ContextWithSpan 0 Background \<and>
   fst (Start ex_flaky (fst ex_retry) (snd ex_retry)) = None \<and>
   Env (Cmd (fst (snd (Start ex_flaky (fst ex_retry) (snd ex_retry))))) =
     [''HOME=/root'', ''TRACE_ID=t0'', ''SPAN_ID=s0'', ''TRACE_ID=t1'', ''SPAN_ID=s1''] \<and>
   Stderr (Cmd (fst (snd (Start ex_flaky (fst ex_retry) (snd ex_retry))))) =
     Some (MultiWriter [Buffer 0, MultiWriter [Buffer 0, UserWriter 7]]) \<and>
   Start ex_flaky ex_started ex_world =
     (Some (errorString ''exec: already started''), ex_started, ex_world) \<and>
   Process (Cmd ex_started) \<noteq> None"
proof -
  have p: "Process (Cmd ex_bad) = None"
    by (simp add: ex_bad_def)
  have q: "Err (Cmd ex_bad) = None"
    by (simp add: ex_bad_def)
  have sp: "spawn ex_flaky (staged ex_flaky ex_bad ex_world) =
              Some (osError ''fork/exec: resource temporarily unavailable'')"
    by (simp add: ex_flaky_def ex_env_def staged_def ex_bad_def)
  have s1: "Start ex_flaky ex_bad ex_world =
              (fst (Start ex_flaky ex_bad ex_world), fst ex_retry, snd ex_retry)"
    by (simp add: ex_retry_def)
  have s2: "Start ex_flaky (fst ex_retry) (snd ex_retry) =
              (fst (Start ex_flaky (fst ex_retry) (snd ex_retry)),
               fst (snd (Start ex_flaky (fst ex_retry) (snd ex_retry))),
               snd (snd (Start ex_flaky (fst ex_retry) (snd ex_retry))))"
    by simp
  have ok: "fst (Start ex_flaky (fst ex_retry) (snd ex_retry)) = None"
    by code_simp
  have guard: "Start ex_flaky ex_started ex_world =
     (Some (errorString ''exec: already started''), ex_started, ex_world)"
    by (simp add: Start_def ex_started_def)
  have vals: "Env (Cmd ex_bad) = [''HOME=/root''] \<and> Stderr (Cmd ex_bad) = Some (UserWriter 7) \<and>
              stdErr ex_bad = Buffer 0 \<and> ctx ex_bad = Background \<and> fresh ex_world = 0 \<and>
              TraceID ex_flaky 0 = ''t0'' \<and> SpanID ex_flaky 0 = ''s0'' \<and>
              TraceID ex_flaky (Suc 0) = ''t1'' \<and> SpanID ex_flaky (Suc 0) = ''s1''"
    by (simp add: ex_bad_def ex_flaky_def ex_env_def ex_world_def digits.simps)
  show ?thesis
    using Start_spawn_failure_mutates [OF p q sp s1 s2] p q sp ok guard vals
    by auto
qed

end
